theory Spec2Isabelle
  imports Complex_Main
begin

section \<open>Encoder localization: the node of \<^verbatim>\<open>encoder_localization.py\<close>\<close>

text \<open>
  The node keeps one tracker per wheel (a flag, the last tick count, the first tick
  count, the distance travelled), a heading \<open>theta\<close>, the transform message it last
  built and the flag \<open>encoder_received\<close>. A subscriber callback updates them for every
  wheel encoder message; the loop of \<open>run\<close> publishes the stored message at a fixed rate.

  Modelling decisions.
  \<^item> The node is modelled twice over the same record of fields, which is polymorphic in
    the type of the numbers. In the exact model Python's \<open>float\<close> is \<^typ>\<open>real\<close>:
    no rounding, no infinity, no NaN. It carries the claims about the control flow, the
    counters, the flag, the messages and the exceptions, none of which depends on a
    rounding. In the model on doubles every arithmetic operation is the IEEE 754 binary64
    operation; it carries the claims about the values of the heading and of the
    distances. Python's \<open>int\<close> is \<^typ>\<open>int\<close> in both.
  \<^item> The instance \<open>self\<close> is a record that every operation takes and returns. An
    operation returns its outcome (\<open>Inl\<close> an exception, \<open>Inr ()\<close> a normal return)
    together with the instance as the exception or the return leaves it: what was assigned
    before a \<open>raise\<close> stays assigned.
  \<^item> The publisher and the broadcaster are the lists of the messages handed to them.
  \<^item> A callback and a cycle of the loop each run as one step; steps of the two threads
    are interleaved, never overlapped. Calls to the logger are left out.
\<close>

subsection \<open>Messages\<close>

text \<open>
  The ROS messages, with the fields of \<open>std_msgs/Header\<close>,
  \<open>duckietown_msgs/WheelEncoderStamped\<close> and \<open>geometry_msgs/TransformStamped\<close>. A
  vector and a quaternion are tuples of their components. The node reads \<open>data\<close> and
  \<open>header.stamp\<close> of an encoder message and nothing else; its field \<open>type\<close> is left
  out.
\<close>

record Time =
  secs :: nat
  nsecs :: nat

record Header =
  seq :: nat
  stamp :: Time
  frame_id :: string

record Stamped =
  header :: Header

record WheelEncoderStamped = Stamped +
  data :: int
  resolution :: nat

record Transform =
  translation :: "real \<times> real \<times> real"
  rotation :: "real \<times> real \<times> real \<times> real"

record TransformStamped = Stamped +
  child_frame_id :: string
  transform :: Transform

text \<open>\<open>TransformStamped()\<close>: every number zero, every string empty.\<close>

definition TransformStamped_new :: TransformStamped where
  "TransformStamped_new =
     \<lparr>header = \<lparr>seq = 0, stamp = \<lparr>secs = 0, nsecs = 0\<rparr>, frame_id = []\<rparr>,
      child_frame_id = [],
      transform = \<lparr>translation = (0, 0, 0), rotation = (0, 0, 0, 0)\<rparr>\<rparr>"

subsection \<open>The node\<close>

datatype error = NameError string | ZeroDivisionError | AttributeError

record 'f EncoderLocalization =
  veh_name :: string
  baseline :: 'f
  radius :: 'f
  encoder_received :: bool
  encoder_resolution :: int
  initialised_ticks_left :: bool
  total_ticks_left :: int
  initial_ticks_left :: int
  wheel_distance_left :: 'f
  initialised_ticks_right :: bool
  total_ticks_right :: int
  initial_ticks_right :: int
  wheel_distance_right :: 'f
  map_to_baselink :: "int list list"
  theta :: 'f
  transform_msg :: "TransformStamped option"
  broadcaster :: "TransformStamped list"
  pub_transform :: "TransformStamped list"

text \<open>
  \<open>__init__\<close>. The vehicle name comes from the ROS namespace and the pair
  \<open>(baseline, radius)\<close> from the calibration file read by \<open>get_calib_params\<close>; both are
  file and network input, so they are the parameters here. The attribute
  \<open>transform_msg\<close> does not exist before the first callback: \<open>None\<close>.
\<close>

definition init :: "string \<Rightarrow> real \<Rightarrow> real \<Rightarrow> real EncoderLocalization" where
  "init name b r =
     \<lparr>veh_name = name,
      baseline = b,
      radius = r,
      encoder_received = False,
      encoder_resolution = 135,
      initialised_ticks_left = False,
      total_ticks_left = 0,
      initial_ticks_left = 0,
      wheel_distance_left = 0,
      initialised_ticks_right = False,
      total_ticks_right = 0,
      initial_ticks_right = 0,
      wheel_distance_right = 0,
      map_to_baselink = [[-1, 0, 0, -1], [0, -1, 0, 0], [0, 0, 1, 0], [0, 0, 0, 1]],
      theta = 0,
      transform_msg = None,
      broadcaster = [],
      pub_transform = []\<rparr>"

text \<open>
  \<open>np.mod(x1, x2)\<close> in exact arithmetic is the remainder of the floored division,
  \<open>x1 - floor(x1 / x2) * x2\<close>, with the sign of \<open>x2\<close>. The node only calls it with
  \<open>x2 = 2.0 * np.pi\<close>. What numpy computes on doubles is \<open>np_mod64\<close> below.
\<close>

definition np_mod :: "real \<Rightarrow> real \<Rightarrow> real" where
  "np_mod x1 x2 = x1 - of_int \<lfloor>x1 / x2\<rfloor> * x2"

text \<open>
  Lines 136 to 156 of \<open>cb_encoder_to_transform\<close>, the part after the
  \<open>if\<close>/\<open>elif\<close>/\<open>else\<close> on the wheel name, which both wheels run: the heading, the
  transform message with the stamp of the encoder message, and the flag. The float
  division by \<open>self.baseline\<close> raises \<open>ZeroDivisionError\<close> when the baseline is zero,
  before anything of this part is assigned.
\<close>

definition estimation ::
  "WheelEncoderStamped \<Rightarrow> real EncoderLocalization \<Rightarrow>
     (error + unit) \<times> real EncoderLocalization" where
  "estimation msg self =
     (if baseline self = 0 then (Inl ZeroDivisionError, self)
      else
        (Inr (),
         self\<lparr>theta :=
                 np_mod ((wheel_distance_left self - wheel_distance_right self) / baseline self)
                   (2 * pi),
               transform_msg :=
                 Some (TransformStamped_new
                   \<lparr>header := \<lparr>seq = 0, stamp = stamp (header msg), frame_id = ''map''\<rparr>,
                    child_frame_id := ''encoder_baselink''\<rparr>),
               encoder_received := True\<rparr>))"

text \<open>
  \<open>cb_encoder_to_transform(self, msg, wheel)\<close>. For a wheel the first message seeds
  both tick counters; then the difference to the last count is turned into a distance
  (a division by \<open>self.encoder_resolution\<close>, which raises when that is zero), added to the
  wheel's distance, and the last count is replaced. Any other wheel name raises
  \<open>NameError\<close>.
\<close>

definition cb_encoder_to_transform ::
  "WheelEncoderStamped \<Rightarrow> string \<Rightarrow> real EncoderLocalization \<Rightarrow>
     (error + unit) \<times> real EncoderLocalization" where
  "cb_encoder_to_transform msg wheel self =
     (if wheel = ''left'' then
        (let self1 =
               (if \<not> initialised_ticks_left self
                then self\<lparr>total_ticks_left := data msg,
                          initial_ticks_left := data msg,
                          initialised_ticks_left := True\<rparr>
                else self);
             dN_ticks_left = data msg - total_ticks_left self1
         in if encoder_resolution self1 = 0 then (Inl ZeroDivisionError, self1)
            else estimation msg
                   (self1\<lparr>wheel_distance_left :=
                             wheel_distance_left self1 +
                               2 * pi * radius self1 * of_int dN_ticks_left /
                                 of_int (encoder_resolution self1),
                           total_ticks_left := data msg\<rparr>))
      else if wheel = ''right'' then
        (let self1 =
               (if \<not> initialised_ticks_right self
                then self\<lparr>total_ticks_right := data msg,
                          initial_ticks_right := data msg,
                          initialised_ticks_right := True\<rparr>
                else self);
             dN_ticks_right = data msg - total_ticks_right self1
         in if encoder_resolution self1 = 0 then (Inl ZeroDivisionError, self1)
            else estimation msg
                   (self1\<lparr>wheel_distance_right :=
                             wheel_distance_right self1 +
                               2 * pi * radius self1 * of_int dN_ticks_right /
                                 of_int (encoder_resolution self1),
                           total_ticks_right := data msg\<rparr>))
      else (Inl (NameError ''wheel name not found''), self))"

text \<open>
  One pass through the body of the \<open>while\<close> loop of \<open>run\<close>: when the flag is set the
  stored message goes to the publisher and to the broadcaster. Reading
  \<open>self.transform_msg\<close> before any callback has assigned it raises \<open>AttributeError\<close>.
\<close>

definition run_cycle ::
  "'f EncoderLocalization \<Rightarrow> (error + unit) \<times> 'f EncoderLocalization" where
  "run_cycle self =
     (if encoder_received self then
        (case transform_msg self of
           None \<Rightarrow> (Inl AttributeError, self)
         | Some m \<Rightarrow>
             (Inr (),
              self\<lparr>pub_transform := pub_transform self @ [m],
                    broadcaster := broadcaster self @ [m]\<rparr>))
      else (Inr (), self))"

text \<open>
  \<open>run\<close> with no callback in between: the loop runs its body once for every time
  \<open>rospy.is_shutdown()\<close> answers no (the first argument counts them) and ends at the
  first exception.
\<close>

fun run ::
  "nat \<Rightarrow> 'f EncoderLocalization \<Rightarrow> (error + unit) \<times> 'f EncoderLocalization" where
  "run 0 self = (Inr (), self)"
| "run (Suc n) self =
     (case run_cycle self of
        (Inl e, self') \<Rightarrow> (Inl e, self')
      | (Inr _, self') \<Rightarrow> run n self')"

subsection \<open>The running node\<close>

text \<open>
  What happens to a running node is a sequence of events: an encoder message delivered
  to the callback with a wheel name, or one cycle of the publish loop. rospy catches an
  exception of a subscriber callback and logs it, so the node goes on from the state the
  callback left.
\<close>

datatype event = Tick WheelEncoderStamped string | Cycle

fun step :: "event \<Rightarrow> real EncoderLocalization \<Rightarrow> real EncoderLocalization" where
  "step (Tick msg wheel) self = snd (cb_encoder_to_transform msg wheel self)"
| "step Cycle self = snd (run_cycle self)"

fun exec ::
  "event list \<Rightarrow> real EncoderLocalization \<Rightarrow> real EncoderLocalization" where
  "exec [] self = self"
| "exec (e # es) self = exec es (step e self)"

text \<open>The tick counts delivered for one wheel, in the order of their arrival.\<close>

fun readings :: "string \<Rightarrow> event list \<Rightarrow> int list" where
  "readings w [] = []"
| "readings w (Tick msg wheel # es) =
     (if wheel = w then data msg # readings w es else readings w es)"
| "readings w (Cycle # es) = readings w es"

subsection \<open>Double precision\<close>

text \<open>
  The values of a Python \<open>float\<close> and of \<open>np.float64\<close>: IEEE 754 binary64. A finite
  double is the real number it stands for; the two zeros are one value, since no
  operation of the node tells them apart (a division by zero raises before it is
  computed). The other values are the two infinities and NaN.
\<close>

datatype double = Finite real | PInf | NInf | NaN

text \<open>
  Rounding to the nearest double, ties to the even mantissa: \<open>round64\<close> scales by the
  unit in the last place of the binade of \<open>x\<close> (53 bits of mantissa, the smallest exponent
  \<open>-1022\<close> for the subnormal numbers), rounds to an integer and scales back; \<open>fl\<close> turns
  a result beyond the largest double into an infinity. Every arithmetic operation on
  doubles is the exact operation followed by \<open>fl\<close>.
\<close>

definition round_even :: "real \<Rightarrow> int" where
  "round_even x =
     (let n = \<lfloor>x\<rfloor>; d = x - of_int n
      in if d < 1 / 2 then n else if 1 / 2 < d then n + 1 else if even n then n else n + 1)"

definition expo :: "real \<Rightarrow> int" where
  "expo x = max \<lfloor>log 2 \<bar>x\<bar>\<rfloor> (- 1022)"

definition round64 :: "real \<Rightarrow> real" where
  "round64 x =
     (if x = 0 then 0
      else of_int (round_even (x / 2 powr of_int (expo x - 52))) * 2 powr of_int (expo x - 52))"

definition fl :: "real \<Rightarrow> double" where
  "fl x =
     (let y = round64 x
      in if 2 ^ 1024 \<le> y then PInf else if y \<le> - (2 ^ 1024) then NInf else Finite y)"

text \<open>
  The operations the node uses. \<open>x - y\<close> is \<open>x + (-y)\<close>. \<open>fdiv\<close> is only called with a
  divisor that is not zero: Python raises \<open>ZeroDivisionError\<close> before. \<open>to_double\<close> is
  Python's conversion of an \<open>int\<close> operand, exact for the 32-bit counts of an encoder
  message (an \<open>int\<close> beyond the range of the doubles would raise \<open>OverflowError\<close>; no
  message carries one, and the model rounds it to an infinity). \<open>pi64\<close> is the double
  \<open>np.pi\<close>.
\<close>

definition trunc :: "real \<Rightarrow> int" where
  "trunc x = (if 0 \<le> x then \<lfloor>x\<rfloor> else \<lceil>x\<rceil>)"

fun fneg :: "double \<Rightarrow> double" where
  "fneg (Finite a) = Finite (- a)"
| "fneg PInf = NInf"
| "fneg NInf = PInf"
| "fneg NaN = NaN"

fun fadd :: "double \<Rightarrow> double \<Rightarrow> double" where
  "fadd (Finite a) (Finite b) = fl (a + b)"
| "fadd NaN _ = NaN"
| "fadd _ NaN = NaN"
| "fadd PInf NInf = NaN"
| "fadd NInf PInf = NaN"
| "fadd PInf _ = PInf"
| "fadd NInf _ = NInf"
| "fadd _ PInf = PInf"
| "fadd _ NInf = NInf"

definition fsub :: "double \<Rightarrow> double \<Rightarrow> double" where
  "fsub x y = fadd x (fneg y)"

fun fmul :: "double \<Rightarrow> double \<Rightarrow> double" where
  "fmul (Finite a) (Finite b) = fl (a * b)"
| "fmul NaN _ = NaN"
| "fmul _ NaN = NaN"
| "fmul (Finite a) PInf = (if a = 0 then NaN else if 0 < a then PInf else NInf)"
| "fmul (Finite a) NInf = (if a = 0 then NaN else if 0 < a then NInf else PInf)"
| "fmul PInf (Finite b) = (if b = 0 then NaN else if 0 < b then PInf else NInf)"
| "fmul NInf (Finite b) = (if b = 0 then NaN else if 0 < b then NInf else PInf)"
| "fmul PInf PInf = PInf"
| "fmul NInf NInf = PInf"
| "fmul PInf NInf = NInf"
| "fmul NInf PInf = NInf"

fun fdiv :: "double \<Rightarrow> double \<Rightarrow> double" where
  "fdiv (Finite a) (Finite b) = (if b = 0 then NaN else fl (a / b))"
| "fdiv NaN _ = NaN"
| "fdiv _ NaN = NaN"
| "fdiv (Finite a) _ = Finite 0"
| "fdiv PInf (Finite b) = (if 0 \<le> b then PInf else NInf)"
| "fdiv NInf (Finite b) = (if 0 \<le> b then NInf else PInf)"
| "fdiv _ _ = NaN"

definition to_double :: "int \<Rightarrow> double" where
  "to_double n = fl (of_int n)"

definition pi64 :: real where
  "pi64 = 884279719003555 / 2 ^ 48"

text \<open>
  \<open>np.mod\<close> on doubles, as numpy computes it: the C function \<open>fmod\<close> (the exact
  remainder of the division truncated towards zero, with the sign of \<open>x1\<close>), and when
  that is not zero and its sign differs from the sign of \<open>x2\<close>, the rounded sum of it and
  \<open>x2\<close>. That sum is where a remainder just below zero becomes the modulus itself.
\<close>

fun np_mod64 :: "double \<Rightarrow> double \<Rightarrow> double" where
  "np_mod64 (Finite a) (Finite b) =
     (if b = 0 then NaN
      else
        (let m = a - b * of_int (trunc (a / b))
         in if m \<noteq> 0 then (if (b < 0) \<noteq> (m < 0) then fl (m + b) else Finite m)
            else Finite 0))"
| "np_mod64 (Finite a) PInf = (if a < 0 then PInf else Finite a)"
| "np_mod64 (Finite a) NInf = (if 0 < a then NInf else Finite a)"
| "np_mod64 _ _ = NaN"

text \<open>
  The node on doubles: the same fields with the distances, the heading and the
  calibration as doubles, and the same statements with every arithmetic operation
  rounded, in the order Python evaluates them:
  \<open>((2 * np.pi) * radius) * dN) / encoder_resolution\<close>, then the \<open>+=\<close>;
  \<open>(left - right) / baseline\<close>, then \<open>np.mod\<close> with \<open>2.0 * np.pi\<close>.
\<close>

definition init64 :: "string \<Rightarrow> double \<Rightarrow> double \<Rightarrow> double EncoderLocalization" where
  "init64 name b r =
     \<lparr>veh_name = name,
      baseline = b,
      radius = r,
      encoder_received = False,
      encoder_resolution = 135,
      initialised_ticks_left = False,
      total_ticks_left = 0,
      initial_ticks_left = 0,
      wheel_distance_left = Finite 0,
      initialised_ticks_right = False,
      total_ticks_right = 0,
      initial_ticks_right = 0,
      wheel_distance_right = Finite 0,
      map_to_baselink = [[-1, 0, 0, -1], [0, -1, 0, 0], [0, 0, 1, 0], [0, 0, 0, 1]],
      theta = Finite 0,
      transform_msg = None,
      broadcaster = [],
      pub_transform = []\<rparr>"

definition estimation64 ::
  "WheelEncoderStamped \<Rightarrow> double EncoderLocalization \<Rightarrow>
     (error + unit) \<times> double EncoderLocalization" where
  "estimation64 msg self =
     (if baseline self = Finite 0 then (Inl ZeroDivisionError, self)
      else
        (Inr (),
         self\<lparr>theta :=
                 np_mod64
                   (fdiv (fsub (wheel_distance_left self) (wheel_distance_right self))
                      (baseline self))
                   (fmul (Finite 2) (Finite pi64)),
               transform_msg :=
                 Some (TransformStamped_new
                   \<lparr>header := \<lparr>seq = 0, stamp = stamp (header msg), frame_id = ''map''\<rparr>,
                    child_frame_id := ''encoder_baselink''\<rparr>),
               encoder_received := True\<rparr>))"

definition cb_encoder_to_transform64 ::
  "WheelEncoderStamped \<Rightarrow> string \<Rightarrow> double EncoderLocalization \<Rightarrow>
     (error + unit) \<times> double EncoderLocalization" where
  "cb_encoder_to_transform64 msg wheel self =
     (if wheel = ''left'' then
        (let self1 =
               (if \<not> initialised_ticks_left self
                then self\<lparr>total_ticks_left := data msg,
                          initial_ticks_left := data msg,
                          initialised_ticks_left := True\<rparr>
                else self);
             dN_ticks_left = data msg - total_ticks_left self1
         in if encoder_resolution self1 = 0 then (Inl ZeroDivisionError, self1)
            else estimation64 msg
                   (self1\<lparr>wheel_distance_left :=
                             fadd (wheel_distance_left self1)
                               (fdiv
                                  (fmul (fmul (fmul (to_double 2) (Finite pi64)) (radius self1))
                                     (to_double dN_ticks_left))
                                  (to_double (encoder_resolution self1))),
                           total_ticks_left := data msg\<rparr>))
      else if wheel = ''right'' then
        (let self1 =
               (if \<not> initialised_ticks_right self
                then self\<lparr>total_ticks_right := data msg,
                          initial_ticks_right := data msg,
                          initialised_ticks_right := True\<rparr>
                else self);
             dN_ticks_right = data msg - total_ticks_right self1
         in if encoder_resolution self1 = 0 then (Inl ZeroDivisionError, self1)
            else estimation64 msg
                   (self1\<lparr>wheel_distance_right :=
                             fadd (wheel_distance_right self1)
                               (fdiv
                                  (fmul (fmul (fmul (to_double 2) (Finite pi64)) (radius self1))
                                     (to_double dN_ticks_right))
                                  (to_double (encoder_resolution self1))),
                           total_ticks_right := data msg\<rparr>))
      else (Inl (NameError ''wheel name not found''), self))"

fun step64 :: "event \<Rightarrow> double EncoderLocalization \<Rightarrow> double EncoderLocalization" where
  "step64 (Tick msg wheel) self = snd (cb_encoder_to_transform64 msg wheel self)"
| "step64 Cycle self = snd (run_cycle self)"

fun exec64 ::
  "event list \<Rightarrow> double EncoderLocalization \<Rightarrow> double EncoderLocalization" where
  "exec64 [] self = self"
| "exec64 (e # es) self = exec64 es (step64 e self)"

text \<open>
  The distance the callback adds for a difference of \<open>dN\<close> ticks, and the differences of a
  list of readings: the first reading against itself, every later one against its
  predecessor.
\<close>

definition tick_distance64 :: "double \<Rightarrow> int \<Rightarrow> int \<Rightarrow> double" where
  "tick_distance64 r res dN =
     fdiv (fmul (fmul (fmul (to_double 2) (Finite pi64)) r) (to_double dN)) (to_double res)"

fun increments_from :: "int \<Rightarrow> int list \<Rightarrow> int list" where
  "increments_from p [] = []"
| "increments_from p (t # ts) = (t - p) # increments_from t ts"

definition increments :: "int list \<Rightarrow> int list" where
  "increments ts = (case ts of [] \<Rightarrow> [] | t # _ \<Rightarrow> increments_from t ts)"

subsection \<open>Example inputs\<close>

text \<open>
  An encoder message with the given stamp (in seconds) and tick count, for the concrete
  runs of the examples below.
\<close>

definition tick_msg :: "nat \<Rightarrow> int \<Rightarrow> WheelEncoderStamped" where
  "tick_msg t n =
     \<lparr>header = \<lparr>seq = 0, stamp = \<lparr>secs = t, nsecs = 0\<rparr>, frame_id = []\<rparr>,
      data = n, resolution = 135\<rparr>"

section \<open>Properties\<close>

subsection \<open>Auxiliary facts\<close>

text \<open>
  The remainder of a floored division by a positive modulus lies between 0 and the
  modulus.
\<close>

lemma np_mod_range:
  assumes "0 < x2"
  shows "0 \<le> np_mod x1 x2" and "np_mod x1 x2 < x2"
proof -
  have q: "x1 / x2 * x2 = x1" using assms by simp
  have "of_int \<lfloor>x1 / x2\<rfloor> * x2 \<le> x1 / x2 * x2"
    using assms by (intro mult_right_mono) simp_all
  with q show "0 \<le> np_mod x1 x2" by (simp add: np_mod_def)
  have "x1 / x2 < of_int \<lfloor>x1 / x2\<rfloor> + 1" by linarith
  then have "x1 / x2 * x2 < (of_int \<lfloor>x1 / x2\<rfloor> + 1) * x2"
    using assms by (intro mult_strict_right_mono)
  with q show "np_mod x1 x2 < x2" by (simp add: np_mod_def algebra_simps)
qed

text \<open>
  The callback returns normally exactly when the wheel name is known and neither of its
  two divisions is by zero.
\<close>

lemma cb_success_iff:
  "fst (cb_encoder_to_transform msg wheel self) = Inr () \<longleftrightarrow>
     (wheel = ''left'' \<or> wheel = ''right'') \<and> encoder_resolution self \<noteq> 0 \<and> baseline self \<noteq> 0"
  by (auto simp: cb_encoder_to_transform_def estimation_def Let_def)

text \<open>
  Frame facts: the fields that the second part of the callback, the callback as a whole,
  a cycle of the publish loop and so every step of a run leave alone.
\<close>

lemma estimation_left_fields:
  "initialised_ticks_left (snd (estimation msg self)) = initialised_ticks_left self"
  "total_ticks_left (snd (estimation msg self)) = total_ticks_left self"
  "initial_ticks_left (snd (estimation msg self)) = initial_ticks_left self"
  "wheel_distance_left (snd (estimation msg self)) = wheel_distance_left self"
  by (simp_all add: estimation_def)

lemma estimation_right_fields:
  "initialised_ticks_right (snd (estimation msg self)) = initialised_ticks_right self"
  "total_ticks_right (snd (estimation msg self)) = total_ticks_right self"
  "initial_ticks_right (snd (estimation msg self)) = initial_ticks_right self"
  "wheel_distance_right (snd (estimation msg self)) = wheel_distance_right self"
  by (simp_all add: estimation_def)

lemma estimation_params:
  "baseline (snd (estimation msg self)) = baseline self"
  "radius (snd (estimation msg self)) = radius self"
  "encoder_resolution (snd (estimation msg self)) = encoder_resolution self"
  by (simp_all add: estimation_def)

lemma cb_params:
  "baseline (snd (cb_encoder_to_transform msg wheel self)) = baseline self"
  "radius (snd (cb_encoder_to_transform msg wheel self)) = radius self"
  "encoder_resolution (snd (cb_encoder_to_transform msg wheel self)) = encoder_resolution self"
  by (simp_all add: cb_encoder_to_transform_def Let_def estimation_params)

lemma run_cycle_params:
  "baseline (snd (run_cycle self)) = baseline self"
  "radius (snd (run_cycle self)) = radius self"
  "encoder_resolution (snd (run_cycle self)) = encoder_resolution self"
  by (simp_all add: run_cycle_def split: option.split)

lemma step_params:
  "baseline (step e self) = baseline self"
  "radius (step e self) = radius self"
  "encoder_resolution (step e self) = encoder_resolution self"
  by (cases e; simp add: cb_params run_cycle_params)+

lemma exec_params:
  "baseline (exec es self) = baseline self"
  "radius (exec es self) = radius self"
  "encoder_resolution (exec es self) = encoder_resolution self"
  by (induction es arbitrary: self; simp add: step_params)+

text \<open>
  Runs and their readings, extended by one event at the end.
\<close>

lemma exec_snoc: "exec (es @ [e]) self = step e (exec es self)"
  by (induction es arbitrary: self) simp_all

lemma readings_snoc:
  "readings w (es @ [e]) =
     readings w es @ (case e of Tick msg wheel \<Rightarrow> if wheel = w then [data msg] else [] | Cycle \<Rightarrow> [])"
  by (induction w es rule: readings.induct) (simp_all split: event.split)

text \<open>
  What a callback does to the tracker of its own wheel (also when it raises later, at the
  division by the baseline), and that it leaves the tracker of the other wheel alone.
\<close>

lemma cb_left_tracker:
  assumes "encoder_resolution self \<noteq> 0"
  shows "initialised_ticks_left (snd (cb_encoder_to_transform msg ''left'' self))"
    and "total_ticks_left (snd (cb_encoder_to_transform msg ''left'' self)) = data msg"
    and "initial_ticks_left (snd (cb_encoder_to_transform msg ''left'' self)) =
           (if initialised_ticks_left self then initial_ticks_left self else data msg)"
    and "wheel_distance_left (snd (cb_encoder_to_transform msg ''left'' self)) =
           wheel_distance_left self +
             2 * pi * radius self *
               of_int (data msg - (if initialised_ticks_left self then total_ticks_left self else data msg)) /
               of_int (encoder_resolution self)"
  using assms
  by (simp_all add: cb_encoder_to_transform_def Let_def estimation_left_fields)

lemma cb_right_tracker:
  assumes "encoder_resolution self \<noteq> 0"
  shows "initialised_ticks_right (snd (cb_encoder_to_transform msg ''right'' self))"
    and "total_ticks_right (snd (cb_encoder_to_transform msg ''right'' self)) = data msg"
    and "initial_ticks_right (snd (cb_encoder_to_transform msg ''right'' self)) =
           (if initialised_ticks_right self then initial_ticks_right self else data msg)"
    and "wheel_distance_right (snd (cb_encoder_to_transform msg ''right'' self)) =
           wheel_distance_right self +
             2 * pi * radius self *
               of_int (data msg - (if initialised_ticks_right self then total_ticks_right self else data msg)) /
               of_int (encoder_resolution self)"
  using assms
  by (simp_all add: cb_encoder_to_transform_def Let_def estimation_right_fields)

lemma cb_left_frame:
  assumes "wheel \<noteq> ''left''"
  shows "initialised_ticks_left (snd (cb_encoder_to_transform msg wheel self)) = initialised_ticks_left self"
    and "total_ticks_left (snd (cb_encoder_to_transform msg wheel self)) = total_ticks_left self"
    and "initial_ticks_left (snd (cb_encoder_to_transform msg wheel self)) = initial_ticks_left self"
    and "wheel_distance_left (snd (cb_encoder_to_transform msg wheel self)) = wheel_distance_left self"
  using assms
  by (simp_all add: cb_encoder_to_transform_def Let_def estimation_left_fields)

lemma cb_right_frame:
  assumes "wheel \<noteq> ''right''"
  shows "initialised_ticks_right (snd (cb_encoder_to_transform msg wheel self)) = initialised_ticks_right self"
    and "total_ticks_right (snd (cb_encoder_to_transform msg wheel self)) = total_ticks_right self"
    and "initial_ticks_right (snd (cb_encoder_to_transform msg wheel self)) = initial_ticks_right self"
    and "wheel_distance_right (snd (cb_encoder_to_transform msg wheel self)) = wheel_distance_right self"
  using assms
  by (simp_all add: cb_encoder_to_transform_def Let_def estimation_right_fields)

lemma run_cycle_trackers:
  "initialised_ticks_left (snd (run_cycle self)) = initialised_ticks_left self"
  "total_ticks_left (snd (run_cycle self)) = total_ticks_left self"
  "initial_ticks_left (snd (run_cycle self)) = initial_ticks_left self"
  "wheel_distance_left (snd (run_cycle self)) = wheel_distance_left self"
  "initialised_ticks_right (snd (run_cycle self)) = initialised_ticks_right self"
  "total_ticks_right (snd (run_cycle self)) = total_ticks_right self"
  "initial_ticks_right (snd (run_cycle self)) = initial_ticks_right self"
  "wheel_distance_right (snd (run_cycle self)) = wheel_distance_right self"
  by (simp_all add: run_cycle_def split: option.split)

text \<open>
  The trackers along a run from the start: a wheel without a reading is untouched, and a
  wheel with readings holds the first and the last of them and the distance between the
  two.
\<close>

lemma init_fields:
  "encoder_resolution (init name b r) = 135"
  "radius (init name b r) = r"
  "baseline (init name b r) = b"
  by (simp_all add: init_def)

lemma telescope_arith:
  "2 * pi * r / 135 * real_of_int (l - h) + 2 * pi * r * real_of_int (d - l) / real_of_int 135 =
     2 * pi * r / 135 * real_of_int (d - h)"
  by (simp add: field_simps)

lemma left_tracker_trace:
  fixes evs name b r
  defines "s \<equiv> exec evs (init name b r)"
  defines "ts \<equiv> readings ''left'' evs"
  shows "if ts = [] then \<not> initialised_ticks_left s \<and> wheel_distance_left s = 0
         else initialised_ticks_left s \<and> initial_ticks_left s = hd ts \<and>
              total_ticks_left s = last ts \<and>
              wheel_distance_left s = 2 * pi * r / 135 * of_int (last ts - hd ts)"
  unfolding s_def ts_def
proof (induction evs rule: rev_induct)
  case Nil
  show ?case by (simp add: init_def)
next
  case (snoc e evs)
  let ?s = "exec evs (init name b r)"
  have res: "encoder_resolution ?s = 135" and rad: "radius ?s = r"
    by (simp_all add: exec_params init_fields)
  show ?case
  proof (cases e)
    case Cycle
    with snoc.IH show ?thesis
      by (simp add: exec_snoc readings_snoc run_cycle_trackers)
  next
    case (Tick msg wheel)
    show ?thesis
    proof (cases "wheel = ''left''")
      case False
      with Tick snoc.IH show ?thesis
        by (simp add: exec_snoc readings_snoc cb_left_frame)
    next
      case True
      have nz: "encoder_resolution ?s \<noteq> 0" using res by simp
      show ?thesis
      proof (cases "readings ''left'' evs = []")
        case True
        with snoc.IH have "\<not> initialised_ticks_left ?s" "wheel_distance_left ?s = 0"
          by simp_all
        with Tick \<open>wheel = ''left''\<close> True show ?thesis
          by (simp add: exec_snoc readings_snoc cb_left_tracker [OF nz])
      next
        case False
        with snoc.IH have ih: "initialised_ticks_left ?s"
          "initial_ticks_left ?s = hd (readings ''left'' evs)"
          "total_ticks_left ?s = last (readings ''left'' evs)"
          "wheel_distance_left ?s =
             2 * pi * r / 135 * of_int (last (readings ''left'' evs) - hd (readings ''left'' evs))"
          by simp_all
        let ?s' = "snd (cb_encoder_to_transform msg ''left'' ?s)"
        have "wheel_distance_left ?s' =
                2 * pi * r / 135 * real_of_int (last (readings ''left'' evs) - hd (readings ''left'' evs)) +
                2 * pi * r * real_of_int (data msg - last (readings ''left'' evs)) / real_of_int 135"
          by (simp only: cb_left_tracker(4) [OF nz] ih res rad if_True)
        then have "wheel_distance_left ?s' =
                2 * pi * r / 135 * real_of_int (data msg - hd (readings ''left'' evs))"
          by (simp only: telescope_arith)
        with Tick \<open>wheel = ''left''\<close> False ih show ?thesis
          by (simp add: exec_snoc readings_snoc cb_left_tracker(1,2,3) [OF nz] del: of_int_diff)
      qed
    qed
  qed
qed

lemma right_tracker_trace:
  fixes evs name b r
  defines "s \<equiv> exec evs (init name b r)"
  defines "ts \<equiv> readings ''right'' evs"
  shows "if ts = [] then \<not> initialised_ticks_right s \<and> wheel_distance_right s = 0
         else initialised_ticks_right s \<and> initial_ticks_right s = hd ts \<and>
              total_ticks_right s = last ts \<and>
              wheel_distance_right s = 2 * pi * r / 135 * of_int (last ts - hd ts)"
  unfolding s_def ts_def
proof (induction evs rule: rev_induct)
  case Nil
  show ?case by (simp add: init_def)
next
  case (snoc e evs)
  let ?s = "exec evs (init name b r)"
  have res: "encoder_resolution ?s = 135" and rad: "radius ?s = r"
    by (simp_all add: exec_params init_fields)
  show ?case
  proof (cases e)
    case Cycle
    with snoc.IH show ?thesis
      by (simp add: exec_snoc readings_snoc run_cycle_trackers)
  next
    case (Tick msg wheel)
    show ?thesis
    proof (cases "wheel = ''right''")
      case False
      with Tick snoc.IH show ?thesis
        by (simp add: exec_snoc readings_snoc cb_right_frame)
    next
      case True
      have nz: "encoder_resolution ?s \<noteq> 0" using res by simp
      show ?thesis
      proof (cases "readings ''right'' evs = []")
        case True
        with snoc.IH have "\<not> initialised_ticks_right ?s" "wheel_distance_right ?s = 0"
          by simp_all
        with Tick \<open>wheel = ''right''\<close> True show ?thesis
          by (simp add: exec_snoc readings_snoc cb_right_tracker [OF nz])
      next
        case False
        with snoc.IH have ih: "initialised_ticks_right ?s"
          "initial_ticks_right ?s = hd (readings ''right'' evs)"
          "total_ticks_right ?s = last (readings ''right'' evs)"
          "wheel_distance_right ?s =
             2 * pi * r / 135 * of_int (last (readings ''right'' evs) - hd (readings ''right'' evs))"
          by simp_all
        let ?s' = "snd (cb_encoder_to_transform msg ''right'' ?s)"
        have "wheel_distance_right ?s' =
                2 * pi * r / 135 * real_of_int (last (readings ''right'' evs) - hd (readings ''right'' evs)) +
                2 * pi * r * real_of_int (data msg - last (readings ''right'' evs)) / real_of_int 135"
          by (simp only: cb_right_tracker(4) [OF nz] ih res rad if_True)
        then have "wheel_distance_right ?s' =
                2 * pi * r / 135 * real_of_int (data msg - hd (readings ''right'' evs))"
          by (simp only: telescope_arith)
        with Tick \<open>wheel = ''right''\<close> False ih show ?thesis
          by (simp add: exec_snoc readings_snoc cb_right_tracker(1,2,3) [OF nz] del: of_int_diff)
      qed
    qed
  qed
qed

text \<open>
  The outcome of a callback: the unknown wheel, the normal return, the exception.
\<close>

lemma cb_unknown:
  "wheel \<noteq> ''left'' \<Longrightarrow> wheel \<noteq> ''right'' \<Longrightarrow>
     cb_encoder_to_transform msg wheel self = (Inl (NameError ''wheel name not found''), self)"
  by (simp add: cb_encoder_to_transform_def)

lemma cb_success:
  assumes "fst (cb_encoder_to_transform msg wheel self) = Inr ()"
  shows "encoder_received (snd (cb_encoder_to_transform msg wheel self))"
    and "transform_msg (snd (cb_encoder_to_transform msg wheel self)) =
           Some (TransformStamped_new
             \<lparr>header := \<lparr>seq = 0, stamp = stamp (header msg), frame_id = ''map''\<rparr>,
              child_frame_id := ''encoder_baselink''\<rparr>)"
    and "theta (snd (cb_encoder_to_transform msg wheel self)) =
           np_mod ((wheel_distance_left (snd (cb_encoder_to_transform msg wheel self)) -
                    wheel_distance_right (snd (cb_encoder_to_transform msg wheel self))) /
                   baseline (snd (cb_encoder_to_transform msg wheel self))) (2 * pi)"
    and "pub_transform (snd (cb_encoder_to_transform msg wheel self)) = pub_transform self"
    and "broadcaster (snd (cb_encoder_to_transform msg wheel self)) = broadcaster self"
  using assms
  by (auto simp: cb_encoder_to_transform_def estimation_def Let_def split: if_splits)

lemma cb_failure:
  assumes "fst (cb_encoder_to_transform msg wheel self) \<noteq> Inr ()"
  shows "encoder_received (snd (cb_encoder_to_transform msg wheel self)) = encoder_received self"
    and "transform_msg (snd (cb_encoder_to_transform msg wheel self)) = transform_msg self"
    and "theta (snd (cb_encoder_to_transform msg wheel self)) = theta self"
    and "pub_transform (snd (cb_encoder_to_transform msg wheel self)) = pub_transform self"
    and "broadcaster (snd (cb_encoder_to_transform msg wheel self)) = broadcaster self"
  using assms
  by (auto simp: cb_encoder_to_transform_def estimation_def Let_def split: if_splits)

lemma run_cycle_pose:
  "encoder_received (snd (run_cycle self)) = encoder_received self"
  "transform_msg (snd (run_cycle self)) = transform_msg self"
  "theta (snd (run_cycle self)) = theta self"
  by (simp_all add: run_cycle_def split: option.split)

text \<open>
  The heading and the stored message along a run from the start. The flag can only be
  set when the baseline is not zero, which is what keeps the equation for the heading
  true when a later callback moves a wheel distance.
\<close>

lemma pose_trace:
  fixes evs name b r
  defines "s \<equiv> exec evs (init name b r)"
  shows "if encoder_received s
         then b \<noteq> 0 \<and> transform_msg s \<noteq> None \<and>
              theta s = np_mod ((wheel_distance_left s - wheel_distance_right s) / b) (2 * pi)
         else theta s = 0 \<and> transform_msg s = None"
  unfolding s_def
proof (induction evs rule: rev_induct)
  case Nil
  show ?case by (simp add: init_def)
next
  case (snoc e evs)
  let ?s = "exec evs (init name b r)"
  have base: "baseline ?s = b" by (simp add: exec_params init_fields)
  show ?case
  proof (cases e)
    case Cycle
    with snoc.IH show ?thesis
      by (simp add: exec_snoc run_cycle_pose run_cycle_trackers)
  next
    case (Tick msg wheel)
    let ?r = "cb_encoder_to_transform msg wheel ?s"
    show ?thesis
    proof (cases "fst ?r = Inr ()")
      case True
      then have "b \<noteq> 0" using base by (simp add: cb_success_iff)
      with True Tick base show ?thesis
        by (simp add: exec_snoc cb_success(1,2) cb_success(3) [OF True] cb_params)
    next
      case False
      show ?thesis
      proof (cases "wheel = ''left'' \<or> wheel = ''right''")
        case False
        then have "?r = (Inl (NameError ''wheel name not found''), ?s)"
          by (simp add: cb_unknown)
        with Tick snoc.IH show ?thesis by (simp add: exec_snoc)
      next
        case True
        have "encoder_resolution ?s = 135" by (simp add: exec_params init_fields)
        with True \<open>fst ?r \<noteq> Inr ()\<close> base have "b = 0"
          by (simp add: cb_success_iff)
        with snoc.IH have "\<not> encoder_received ?s" "theta ?s = 0" "transform_msg ?s = None"
          by (simp_all split: if_splits)
        with Tick \<open>fst ?r \<noteq> Inr ()\<close> show ?thesis
          by (simp add: exec_snoc cb_failure)
      qed
    qed
  qed
qed

text \<open>
  The flag is never reset, and what the publish loop does in \<open>n\<close> cycles.
\<close>

lemma exec_received:
  "encoder_received self \<Longrightarrow> encoder_received (exec es self)"
proof (induction es arbitrary: self)
  case Nil
  then show ?case by simp
next
  case (Cons e es)
  have "encoder_received (step e self)"
  proof (cases e)
    case Cycle
    with Cons.prems show ?thesis by (simp add: run_cycle_pose)
  next
    case (Tick msg wheel)
    with Cons.prems show ?thesis
      by (cases "fst (cb_encoder_to_transform msg wheel self) = Inr ()")
         (simp_all add: cb_success(1) cb_failure(1))
  qed
  then show ?case by (simp add: Cons.IH)
qed

lemma run_not_ready: "\<not> encoder_received self \<Longrightarrow> run n self = (Inr (), self)"
  by (induction n) (simp_all add: run_cycle_def)

lemma run_ready:
  "encoder_received self \<Longrightarrow> transform_msg self = Some m \<Longrightarrow>
     run n self =
       (Inr (), self\<lparr>pub_transform := pub_transform self @ replicate n m,
                     broadcaster := broadcaster self @ replicate n m\<rparr>)"
proof (induction n arbitrary: self)
  case 0
  show ?case by simp
next
  case (Suc n)
  let ?s = "self\<lparr>pub_transform := pub_transform self @ [m],
                  broadcaster := broadcaster self @ [m]\<rparr>"
  from Suc.prems have c: "run_cycle self = (Inr (), ?s)" by (simp add: run_cycle_def)
  have "run n ?s =
     (Inr (), ?s\<lparr>pub_transform := pub_transform ?s @ replicate n m,
                  broadcaster := broadcaster ?s @ replicate n m\<rparr>)"
    using Suc.prems by (intro Suc.IH) simp_all
  with c show ?case by (simp add: replicate_app_Cons_same)
qed

text \<open>
  The flag along a run.
\<close>

lemma readings_none_received:
  "readings ''left'' evs = [] \<Longrightarrow> readings ''right'' evs = [] \<Longrightarrow>
     encoder_received self = encoder_received (exec evs self)"
proof (induction evs arbitrary: self)
  case Nil
  show ?case by simp
next
  case (Cons e evs)
  show ?case
  proof (cases e)
    case Cycle
    with Cons show ?thesis by (simp add: run_cycle_pose)
  next
    case (Tick msg wheel)
    with Cons.prems have w: "wheel \<noteq> ''left''" "wheel \<noteq> ''right''"
      and rest: "readings ''left'' evs = []" "readings ''right'' evs = []"
      by (simp_all split: if_splits)
    from Cons.IH [OF rest] Tick w show ?thesis by (simp add: cb_unknown)
  qed
qed

lemma received_iff:
  "encoder_received (exec evs (init name b r)) \<longleftrightarrow>
     b \<noteq> 0 \<and> (readings ''left'' evs \<noteq> [] \<or> readings ''right'' evs \<noteq> [])"
proof (induction evs rule: rev_induct)
  case Nil
  show ?case by (simp add: init_def)
next
  case (snoc e evs)
  let ?s = "exec evs (init name b r)"
  show ?case
  proof (cases e)
    case Cycle
    with snoc.IH show ?thesis by (simp add: exec_snoc readings_snoc run_cycle_pose)
  next
    case (Tick msg wheel)
    let ?r = "cb_encoder_to_transform msg wheel ?s"
    have ok: "fst ?r = Inr () \<longleftrightarrow> (wheel = ''left'' \<or> wheel = ''right'') \<and> b \<noteq> 0"
      by (simp add: cb_success_iff exec_params init_fields)
    show ?thesis
    proof (cases "fst ?r = Inr ()")
      case True
      with ok Tick show ?thesis
        by (auto simp: exec_snoc readings_snoc cb_success(1))
    next
      case False
      with ok Tick snoc.IH show ?thesis
        by (auto simp: exec_snoc readings_snoc cb_failure(1))
    qed
  qed
qed

text \<open>
  Two concrete runs, evaluated: one turn of the left wheel with the calibration of the
  end-to-end scenario, and a ratio of exactly \<open>2\<pi>\<close>.
\<close>

lemma boundary_run:
  fixes self'
  defines "self' \<equiv> snd (cb_encoder_to_transform (tick_msg 2 135) ''left''
                  (exec [Tick (tick_msg 0 0) ''left''] (init ''duckie'' 1 1)))"
  shows "wheel_distance_left self' = 2 * pi" and "wheel_distance_right self' = 0"
    and "baseline self' = 1" and "theta self' = 0"
  unfolding self'_def
  by (simp_all add: cb_encoder_to_transform_def estimation_def init_def tick_msg_def Let_def
        np_mod_def)

lemma example_run:
  fixes self
  defines "self \<equiv> exec [Tick (tick_msg 0 0) ''left'', Tick (tick_msg 2 135) ''left'']
                     (init ''duckie'' (1 / 10) (1 / 50))"
  shows "encoder_received self" and "wheel_distance_left self = pi / 25"
    and "wheel_distance_right self = 0" and "baseline self = 1 / 10"
    and "theta self = np_mod (2 * pi / 5) (2 * pi)"
  unfolding self_def
  by (simp_all add: cb_encoder_to_transform_def estimation_def init_def tick_msg_def Let_def)

lemma np_mod_example: "np_mod (2 * pi / 5) (2 * pi) = 2 * pi / 5" "np_mod (2 * pi) (2 * pi / 5) = 0"
proof -
  have "\<lfloor>2 * pi / 5 / (2 * pi)\<rfloor> = 0" by simp
  then show "np_mod (2 * pi / 5) (2 * pi) = 2 * pi / 5" by (simp add: np_mod_def)
  have "2 * pi / (2 * pi / 5) = 5" by simp
  then have "\<lfloor>2 * pi / (2 * pi / 5)\<rfloor> = 5" by simp
  then show "np_mod (2 * pi) (2 * pi / 5) = 0" by (simp add: np_mod_def)
qed

text \<open>
  The wrap-around of the exact remainder at the boundaries: a ratio of exactly \<open>2\<pi>\<close> gives 0,
  a ratio just below 0 gives a heading just below \<open>2\<pi>\<close>, a ratio just above \<open>4\<pi>\<close>
  gives what is above \<open>4\<pi>\<close>.
\<close>

lemma np_mod_boundaries:
  "np_mod (2 * pi) (2 * pi) = 0"
  "0 < e \<Longrightarrow> e \<le> 2 * pi \<Longrightarrow> np_mod (- e) (2 * pi) = 2 * pi - e"
  "0 \<le> e \<Longrightarrow> e < 2 * pi \<Longrightarrow> np_mod (4 * pi + e) (2 * pi) = e"
proof -
  show "np_mod (2 * pi) (2 * pi) = 0" by (simp add: np_mod_def)
next
  assume e: "0 < e" "e \<le> 2 * pi"
  have "\<lfloor>- e / (2 * pi)\<rfloor> = - 1"
    using e by (intro floor_unique) (simp_all add: field_simps)
  then show "np_mod (- e) (2 * pi) = 2 * pi - e" by (simp add: np_mod_def)
next
  assume e: "0 \<le> e" "e < 2 * pi"
  have "\<lfloor>(4 * pi + e) / (2 * pi)\<rfloor> = 2"
    using e by (intro floor_unique) (simp_all add: field_simps)
  then show "np_mod (4 * pi + e) (2 * pi) = e" by (simp add: np_mod_def)
qed

subsection \<open>Exact arithmetic\<close>

text \<open>
  What the heading and the distances would be without rounding: the heading below
  \<open>2\<pi>\<close>, the distance a multiple of the last reading minus the first. The doubles of the
  code keep neither exactly; the claims C1 and C2 below say what they keep.
\<close>

lemma heading_exact:
  assumes "fst (cb_encoder_to_transform msg wheel self) = Inr ()"
  shows "let self' = snd (cb_encoder_to_transform msg wheel self) in
           theta self' =
             np_mod ((wheel_distance_left self' - wheel_distance_right self') / baseline self')
               (2 * pi) \<and>
           0 \<le> theta self' \<and> theta self' < 2 * pi"
proof -
  have "(0::real) < 2 * pi" by simp
  then show ?thesis
    unfolding Let_def cb_success(3) [OF assms]
    by (intro conjI refl np_mod_range)
qed

lemma wheel_distance_exact:
  "(readings ''left'' evs \<noteq> [] \<longrightarrow>
      wheel_distance_left (exec evs (init name b r)) =
        2 * pi * r / real_of_int (encoder_resolution (exec evs (init name b r))) *
          real_of_int (last (readings ''left'' evs) - hd (readings ''left'' evs))) \<and>
   (readings ''right'' evs \<noteq> [] \<longrightarrow>
      wheel_distance_right (exec evs (init name b r)) =
        2 * pi * r / real_of_int (encoder_resolution (exec evs (init name b r))) *
          real_of_int (last (readings ''right'' evs) - hd (readings ''right'' evs)))"
proof -
  have res: "real_of_int (encoder_resolution (exec evs (init name b r))) = 135"
    by (simp add: exec_params init_fields)
  show ?thesis
    unfolding res
    using left_tracker_trace [of evs name b r] right_tracker_trace [of evs name b r]
    by (simp del: of_int_diff split: if_splits)
qed

subsection \<open>Double precision: rounding\<close>

text \<open>
  The binade of a number fixes its unit in the last place; a number scaled into
  \<open>[2^52, 2^53)\<close> by a power of two is rounded as an integer. This is the rule by which
  the roundings of concrete runs are evaluated below.
\<close>

lemma expo_normal:
  fixes e :: int
  assumes "2 powr of_int e \<le> \<bar>x\<bar>" and "\<bar>x\<bar> < 2 powr of_int (e + 1)" and "- 1022 \<le> e"
  shows "expo x = e"
proof -
  have "(0::real) < 2 powr of_int e" by simp
  with assms(1) have pos: "0 < \<bar>x\<bar>" by linarith
  have "of_int e \<le> log 2 \<bar>x\<bar>"
    using assms(1) pos by (simp add: le_log_iff)
  moreover have "log 2 \<bar>x\<bar> < of_int e + 1"
    using assms(2) pos by (simp add: log_less_iff)
  ultimately have "\<lfloor>log 2 \<bar>x\<bar>\<rfloor> = e" by linarith
  with assms(3) show ?thesis by (simp add: expo_def)
qed

lemma round64_scaled:
  fixes k :: nat
  assumes "2 ^ 52 \<le> \<bar>x\<bar> * 2 ^ k" and "\<bar>x\<bar> * 2 ^ k < 2 ^ 53" and "k \<le> 1074"
  shows "round64 x = of_int (round_even (x * 2 ^ k)) / 2 ^ k"
proof -
  define e :: int where "e = 52 - int k"
  have p: "(2::real) powr (of_int e - 52) = 1 / 2 ^ k"
    by (simp add: e_def powr_minus powr_realpow divide_inverse)
  have p1: "(2::real) powr of_int e = 2 ^ 52 / 2 ^ k"
    by (simp add: e_def powr_diff powr_realpow)
  have p2: "(2::real) powr of_int (e + 1) = 2 ^ 53 / 2 ^ k"
  proof -
    have "of_int (e + 1) = (53::real) - real k" by (simp add: e_def)
    then show ?thesis by (simp add: powr_diff powr_realpow)
  qed
  have "expo x = e"
  proof (rule expo_normal)
    show "2 powr of_int e \<le> \<bar>x\<bar>" using assms(1) by (simp add: p1 field_simps)
    show "\<bar>x\<bar> < 2 powr of_int (e + 1)" using assms(2) unfolding p2 by (simp add: field_simps)
    show "- 1022 \<le> e" using assms(3) by (simp add: e_def)
  qed
  moreover have "x \<noteq> 0" using assms(1) by auto
  ultimately show ?thesis by (simp add: round64_def p)
qed

lemma round_even_bounds: "\<lfloor>x\<rfloor> \<le> round_even x" "round_even x \<le> \<lceil>x\<rceil>"
proof -
  show "\<lfloor>x\<rfloor> \<le> round_even x" by (simp add: round_even_def Let_def)
  have "\<lceil>x\<rceil> = \<lfloor>x\<rfloor> + 1" if "x \<noteq> of_int \<lfloor>x\<rfloor>"
    using that by (simp add: ceiling_altdef)
  moreover have "x - of_int \<lfloor>x\<rfloor> < 1 / 2" if "x = of_int \<lfloor>x\<rfloor>"
    using that by linarith
  ultimately show "round_even x \<le> \<lceil>x\<rceil>"
    by (auto simp: round_even_def Let_def)
qed

lemma round_even_le: "x \<le> of_int n \<Longrightarrow> round_even x \<le> n"
  using round_even_bounds(2) [of x] by (meson ceiling_le order_trans)

lemma round_even_ge: "of_int n \<le> x \<Longrightarrow> n \<le> round_even x"
  using round_even_bounds(1) [of x] by (meson le_floor_iff order_trans)

lemma round_even_zero: "round_even 0 = 0"
  by (simp add: round_even_def)

lemma fl_zero: "fl 0 = Finite 0"
  by (simp add: fl_def round64_def)

lemma fl_scaled:
  fixes k :: nat
  assumes "2 ^ 52 \<le> \<bar>x\<bar> * 2 ^ k" and "\<bar>x\<bar> * 2 ^ k < 2 ^ 53" and "k \<le> 1074"
    and "round_even (x * 2 ^ k) = n" and "y = of_int n / 2 ^ k"
  shows "fl x = Finite y"
proof -
  have r: "round64 x = y" using assms by (simp add: round64_scaled)
  have "\<bar>x * 2 ^ k\<bar> < 2 ^ 53" using assms(2) by (simp add: abs_mult)
  then have "x * 2 ^ k \<le> of_int (2 ^ 53)" "of_int (- (2 ^ 53)) \<le> x * 2 ^ k"
    by simp_all
  then have "n \<le> 2 ^ 53" "- (2 ^ 53) \<le> n"
    using assms(4) round_even_le round_even_ge by blast+
  then have "\<bar>n\<bar> \<le> 2 ^ 53" by (simp add: abs_le_iff)
  then have "real_of_int \<bar>n\<bar> \<le> real_of_int (2 ^ 53)" by (simp only: of_int_le_iff)
  then have n: "\<bar>real_of_int n\<bar> \<le> 2 ^ 53" by simp
  have "\<bar>y\<bar> * 2 ^ k = \<bar>real_of_int n\<bar>"
    unfolding assms(5) by (simp add: abs_divide)
  moreover have "\<bar>y\<bar> * 1 \<le> \<bar>y\<bar> * 2 ^ k"
    by (rule mult_left_mono) simp_all
  ultimately have "\<bar>y\<bar> \<le> 2 ^ 53" using n by simp
  moreover have "(2::real) ^ 53 < 2 ^ 1024" by simp
  ultimately have "y < 2 ^ 1024" "- (2 ^ 1024) < y" by linarith+
  with r show ?thesis by (simp add: fl_def Let_def)
qed

lemma fdiv_finite: "b \<noteq> 0 \<Longrightarrow> fl (a / b) = y \<Longrightarrow> fdiv (Finite a) (Finite b) = y"
  by simp

lemma fmod_range:
  fixes a b :: real
  assumes "0 < b"
  defines "m \<equiv> a - b * of_int (trunc (a / b))"
  shows "0 \<le> a \<Longrightarrow> 0 \<le> m \<and> m < b" and "a < 0 \<Longrightarrow> - b < m \<and> m \<le> 0"
proof -
  have q: "a / b * b = a" using assms by simp
  {
    assume "0 \<le> a"
    then have t: "trunc (a / b) = \<lfloor>a / b\<rfloor>" using assms by (simp add: trunc_def)
    have "of_int \<lfloor>a / b\<rfloor> * b \<le> a / b * b"
      using assms by (intro mult_right_mono) simp_all
    moreover have "a / b < of_int \<lfloor>a / b\<rfloor> + 1" by linarith
    then have "a / b * b < (of_int \<lfloor>a / b\<rfloor> + 1) * b"
      using assms by (intro mult_strict_right_mono)
    ultimately show "0 \<le> m \<and> m < b"
      unfolding m_def t q by (simp add: algebra_simps)
  }
  {
    assume "a < 0"
    then have "a / b < 0" using assms by (simp add: divide_neg_pos)
    then have t: "trunc (a / b) = \<lceil>a / b\<rceil>" by (simp add: trunc_def)
    have "a / b * b \<le> of_int \<lceil>a / b\<rceil> * b"
      using assms by (intro mult_right_mono) simp_all
    moreover have "of_int \<lceil>a / b\<rceil> - 1 < a / b" by linarith
    then have "(of_int \<lceil>a / b\<rceil> - 1) * b < a / b * b"
      using assms by (intro mult_strict_right_mono)
    ultimately show "- b < m \<and> m \<le> 0"
      unfolding m_def t q by (simp add: algebra_simps)
  }
qed

lemma np_mod64_small_negative:
  assumes "0 < b" and "- b < a" and "a < 0"
  shows "np_mod64 (Finite a) (Finite b) = fl (a + b)"
proof -
  have "- 1 < a / b" using assms by (simp add: pos_less_divide_eq)
  moreover have "a / b < 0" using assms by (simp add: divide_neg_pos)
  ultimately have "\<lceil>a / b\<rceil> = 0" by (simp add: ceiling_eq_iff)
  with \<open>a / b < 0\<close> have "trunc (a / b) = 0" by (simp add: trunc_def)
  with assms show ?thesis by (simp add: Let_def)
qed

text \<open>Rounding keeps a positive number below the double \<open>2 * pi64\<close> between 0 and it.\<close>

lemma round64_nonneg: "0 \<le> x \<Longrightarrow> 0 \<le> round64 x"
proof -
  assume x: "0 \<le> x"
  have "0 \<le> x / 2 powr of_int (expo x - 52)" using x by simp
  then have "0 \<le> round_even (x / 2 powr of_int (expo x - 52))"
    using round_even_ge [of 0] by simp
  then show ?thesis by (simp add: round64_def)
qed

lemma round64_le_pow2:
  fixes j :: int
  assumes "0 < x" and "x < 2 powr of_int j" and "- 1022 < j"
  shows "round64 x \<le> 2 powr of_int j"
proof -
  define e where "e = expo x"
  have "log 2 x < of_int j" using assms(1,2) by (simp add: log_less_iff)
  then have "\<lfloor>log 2 x\<rfloor> < j" by linarith
  with assms(3) have ej: "e + 1 \<le> j" using assms(1) by (simp add: e_def expo_def)
  have "log 2 x < of_int (\<lfloor>log 2 x\<rfloor> + 1)" by linarith
  also have "\<dots> \<le> of_int (e + 1)" using assms(1) by (simp add: e_def expo_def)
  finally have "x < 2 powr of_int (e + 1)" using assms(1) by (simp add: log_less_iff)
  then have xe: "x < 2 powr of_int (e + 1)" .
  have pw: "(2::real) powr of_int (e + 1) = 2 powr of_int (e - 52) * 2 ^ 53"
  proof -
    have "real_of_int (e + 1) = real_of_int (e - 52) + 53" by simp
    then have "(2::real) powr of_int (e + 1) = 2 powr of_int (e - 52) * 2 powr 53"
      by (simp only: powr_add)
    also have "(2::real) powr 53 = 2 ^ 53" by simp
    finally show ?thesis .
  qed
  have u: "(0::real) < 2 powr of_int (e - 52)" by simp
  from xe have "x < 2 ^ 53 * 2 powr of_int (e - 52)" by (simp only: pw mult.commute)
  with u have "x / 2 powr of_int (e - 52) < 2 ^ 53" by (simp only: pos_divide_less_eq)
  then have "x / 2 powr of_int (e - 52) \<le> of_int (2 ^ 53)" by simp
  then have "round_even (x / 2 powr of_int (e - 52)) \<le> 2 ^ 53" by (rule round_even_le)
  then have "real_of_int (round_even (x / 2 powr of_int (e - 52))) \<le> real_of_int (2 ^ 53)"
    by (simp only: of_int_le_iff)
  then have "real_of_int (round_even (x / 2 powr of_int (e - 52))) \<le> 2 ^ 53" by simp
  then have "real_of_int (round_even (x / 2 powr of_int (e - 52))) * 2 powr of_int (e - 52)
      \<le> 2 ^ 53 * 2 powr of_int (e - 52)"
    using u by (intro mult_right_mono) simp_all
  also have "\<dots> = 2 powr of_int (e + 1)" by (simp only: pw mult.commute)
  also have "\<dots> \<le> 2 powr of_int j" using ej by simp
  finally show ?thesis using assms(1) by (simp add: round64_def e_def)
qed

lemma round64_below_two_pi:
  assumes "0 < y" and "y < 2 * pi64"
  shows "0 \<le> round64 y" and "round64 y \<le> 2 * pi64"
proof -
  show "0 \<le> round64 y" using assms(1) by (simp add: round64_nonneg)
  show "round64 y \<le> 2 * pi64"
  proof (cases "y < 4")
    case True
    have "y < 2 powr of_int 2" using True by simp
    with assms(1) have "round64 y \<le> 2 powr of_int 2" by (rule round64_le_pow2) simp
    then show ?thesis by (simp add: pi64_def)
  next
    case False
    have y8: "y < 8" using assms(2) by (simp add: pi64_def)
    have s: "round64 y = of_int (round_even (y * 2 ^ 50)) / 2 ^ 50"
      using False y8 assms(1) by (intro round64_scaled) simp_all
    have "y * 2 ^ 50 \<le> of_int 7074237752028440"
      using assms(2) by (simp add: pi64_def)
    then have "round_even (y * 2 ^ 50) \<le> 7074237752028440" by (rule round_even_le)
    then have "real_of_int (round_even (y * 2 ^ 50)) \<le> real_of_int 7074237752028440"
      by (simp only: of_int_le_iff)
    then show ?thesis unfolding s by (simp add: pi64_def field_simps)
  qed
qed

lemma fl_below_two_pi:
  assumes "0 < y" and "y < 2 * pi64"
  shows "\<exists>t. fl y = Finite t \<and> 0 \<le> t \<and> t \<le> 2 * pi64"
proof -
  note r = round64_below_two_pi [OF assms]
  have "2 * pi64 < 2 ^ 1024" by (simp add: pi64_def)
  with r have "round64 y < 2 ^ 1024" "- (2 ^ 1024) < round64 y" by linarith+
  then have "fl y = Finite (round64 y)" by (simp add: fl_def Let_def)
  with r show ?thesis by blast
qed

lemma two_pi64: "fmul (Finite 2) (Finite pi64) = Finite (2 * pi64)"
  by (simp only: fmul.simps)
     (rule fl_scaled [where k = 50 and n = 7074237752028440];
      simp add: pi64_def round_even_def Let_def)

lemma np_mod64_range:
  "\<exists>t. np_mod64 (Finite a) (Finite (2 * pi64)) = Finite t \<and> 0 \<le> t \<and> t \<le> 2 * pi64"
proof -
  define b where "b = 2 * pi64"
  define m where "m = a - b * of_int (trunc (a / b))"
  have b: "0 < b" by (simp add: b_def pi64_def)
  have eq: "np_mod64 (Finite a) (Finite b) =
      (if m \<noteq> 0 then if m < 0 then fl (m + b) else Finite m else Finite 0)"
    using b by (simp add: m_def Let_def)
  show ?thesis
  proof (cases "0 \<le> a")
    case True
    from fmod_range(1) [OF b True] have "0 \<le> m \<and> m < b" by (simp add: m_def)
    then show ?thesis unfolding b_def [symmetric] eq by auto
  next
    case False
    then have "a < 0" by simp
    from fmod_range(2) [OF b this] have m: "- b < m \<and> m \<le> 0" by (simp add: m_def)
    show ?thesis
    proof (cases "m = 0")
      case True
      then show ?thesis unfolding b_def [symmetric] eq using b by auto
    next
      case False
      with m have "0 < m + b" "m + b < 2 * pi64" by (simp_all add: b_def)
      from fl_below_two_pi [OF this] False m show ?thesis
        unfolding b_def [symmetric] eq by auto
    qed
  qed
qed

subsection \<open>Double precision: the node\<close>

text \<open>
  The facts of the exact model that do not depend on the arithmetic, again for the node on
  doubles, and the distance of a wheel as the running sum of the rounded distances of its
  readings.
\<close>

lemma increments_from_snoc:
  "increments_from p (ts @ [t]) = increments_from p ts @ [t - last (p # ts)]"
  by (induction ts arbitrary: p) simp_all

lemma increments_snoc:
  "ts \<noteq> [] \<Longrightarrow> increments (ts @ [t]) = increments ts @ [t - last ts]"
  by (cases ts) (simp_all add: increments_def increments_from_snoc)

lemma increments_single: "increments [t] = [0]"
  by (simp add: increments_def)

lemma cb64_success_iff:
  "fst (cb_encoder_to_transform64 msg wheel self) = Inr () \<longleftrightarrow>
     (wheel = ''left'' \<or> wheel = ''right'') \<and> encoder_resolution self \<noteq> 0 \<and>
     baseline self \<noteq> Finite 0"
  by (auto simp: cb_encoder_to_transform64_def estimation64_def Let_def)

lemma estimation64_left_fields:
  "initialised_ticks_left (snd (estimation64 msg self)) = initialised_ticks_left self"
  "total_ticks_left (snd (estimation64 msg self)) = total_ticks_left self"
  "initial_ticks_left (snd (estimation64 msg self)) = initial_ticks_left self"
  "wheel_distance_left (snd (estimation64 msg self)) = wheel_distance_left self"
  by (simp_all add: estimation64_def)

lemma estimation64_right_fields:
  "initialised_ticks_right (snd (estimation64 msg self)) = initialised_ticks_right self"
  "total_ticks_right (snd (estimation64 msg self)) = total_ticks_right self"
  "initial_ticks_right (snd (estimation64 msg self)) = initial_ticks_right self"
  "wheel_distance_right (snd (estimation64 msg self)) = wheel_distance_right self"
  by (simp_all add: estimation64_def)

lemma estimation64_params:
  "baseline (snd (estimation64 msg self)) = baseline self"
  "radius (snd (estimation64 msg self)) = radius self"
  "encoder_resolution (snd (estimation64 msg self)) = encoder_resolution self"
  by (simp_all add: estimation64_def)

lemma cb64_params:
  "baseline (snd (cb_encoder_to_transform64 msg wheel self)) = baseline self"
  "radius (snd (cb_encoder_to_transform64 msg wheel self)) = radius self"
  "encoder_resolution (snd (cb_encoder_to_transform64 msg wheel self)) = encoder_resolution self"
  by (simp_all add: cb_encoder_to_transform64_def Let_def estimation64_params)

lemma step64_params:
  "baseline (step64 e self) = baseline self"
  "radius (step64 e self) = radius self"
  "encoder_resolution (step64 e self) = encoder_resolution self"
  by (cases e; simp add: cb64_params run_cycle_params)+

lemma exec64_params:
  "baseline (exec64 es self) = baseline self"
  "radius (exec64 es self) = radius self"
  "encoder_resolution (exec64 es self) = encoder_resolution self"
  by (induction es arbitrary: self; simp add: step64_params)+

lemma exec64_snoc: "exec64 (es @ [e]) self = step64 e (exec64 es self)"
  by (induction es arbitrary: self) simp_all

lemma init64_fields:
  "encoder_resolution (init64 name b r) = 135"
  "radius (init64 name b r) = r"
  "baseline (init64 name b r) = b"
  by (simp_all add: init64_def)

lemma cb64_left_tracker:
  assumes "encoder_resolution self \<noteq> 0"
  shows "initialised_ticks_left (snd (cb_encoder_to_transform64 msg ''left'' self))"
    and "total_ticks_left (snd (cb_encoder_to_transform64 msg ''left'' self)) = data msg"
    and "initial_ticks_left (snd (cb_encoder_to_transform64 msg ''left'' self)) =
           (if initialised_ticks_left self then initial_ticks_left self else data msg)"
    and "wheel_distance_left (snd (cb_encoder_to_transform64 msg ''left'' self)) =
           fadd (wheel_distance_left self)
             (tick_distance64 (radius self) (encoder_resolution self)
                (data msg -
                   (if initialised_ticks_left self then total_ticks_left self else data msg)))"
  using assms
  by (simp_all add: cb_encoder_to_transform64_def Let_def estimation64_left_fields
        tick_distance64_def)

lemma cb64_left_frame:
  assumes "wheel \<noteq> ''left''"
  shows "initialised_ticks_left (snd (cb_encoder_to_transform64 msg wheel self)) =
           initialised_ticks_left self"
    and "total_ticks_left (snd (cb_encoder_to_transform64 msg wheel self)) = total_ticks_left self"
    and "initial_ticks_left (snd (cb_encoder_to_transform64 msg wheel self)) =
           initial_ticks_left self"
    and "wheel_distance_left (snd (cb_encoder_to_transform64 msg wheel self)) =
           wheel_distance_left self"
  using assms
  by (simp_all add: cb_encoder_to_transform64_def Let_def estimation64_left_fields)

lemma left_tracker64_trace:
  fixes evs name b r
  defines "s \<equiv> exec64 evs (init64 name b r)"
  defines "ts \<equiv> readings ''left'' evs"
  shows "if ts = [] then \<not> initialised_ticks_left s \<and> wheel_distance_left s = Finite 0
         else initialised_ticks_left s \<and> initial_ticks_left s = hd ts \<and>
              total_ticks_left s = last ts \<and>
              wheel_distance_left s =
                foldl (\<lambda>acc dN. fadd acc (tick_distance64 r 135 dN)) (Finite 0) (increments ts)"
  unfolding s_def ts_def
proof (induction evs rule: rev_induct)
  case Nil
  show ?case by (simp add: init64_def)
next
  case (snoc e evs)
  let ?s = "exec64 evs (init64 name b r)"
  have res: "encoder_resolution ?s = 135" and rad: "radius ?s = r"
    by (simp_all add: exec64_params init64_fields)
  show ?case
  proof (cases e)
    case Cycle
    with snoc.IH show ?thesis
      by (simp add: exec64_snoc readings_snoc run_cycle_trackers)
  next
    case (Tick msg wheel)
    show ?thesis
    proof (cases "wheel = ''left''")
      case False
      with Tick snoc.IH show ?thesis
        by (simp add: exec64_snoc readings_snoc cb64_left_frame)
    next
      case True
      have nz: "encoder_resolution ?s \<noteq> 0" using res by simp
      show ?thesis
      proof (cases "readings ''left'' evs = []")
        case True
        with snoc.IH have "\<not> initialised_ticks_left ?s" "wheel_distance_left ?s = Finite 0"
          by simp_all
        with Tick \<open>wheel = ''left''\<close> True show ?thesis
          by (simp add: exec64_snoc readings_snoc cb64_left_tracker [OF nz] res rad
                increments_single)
      next
        case False
        with snoc.IH have ih: "initialised_ticks_left ?s"
          "initial_ticks_left ?s = hd (readings ''left'' evs)"
          "total_ticks_left ?s = last (readings ''left'' evs)"
          "wheel_distance_left ?s =
             foldl (\<lambda>acc dN. fadd acc (tick_distance64 r 135 dN)) (Finite 0)
               (increments (readings ''left'' evs))"
          by simp_all
        with Tick \<open>wheel = ''left''\<close> False show ?thesis
          by (simp add: exec64_snoc readings_snoc cb64_left_tracker [OF nz] res rad
                increments_snoc)
      qed
    qed
  qed
qed

lemma cb64_right_tracker:
  assumes "encoder_resolution self \<noteq> 0"
  shows "initialised_ticks_right (snd (cb_encoder_to_transform64 msg ''right'' self))"
    and "total_ticks_right (snd (cb_encoder_to_transform64 msg ''right'' self)) = data msg"
    and "initial_ticks_right (snd (cb_encoder_to_transform64 msg ''right'' self)) =
           (if initialised_ticks_right self then initial_ticks_right self else data msg)"
    and "wheel_distance_right (snd (cb_encoder_to_transform64 msg ''right'' self)) =
           fadd (wheel_distance_right self)
             (tick_distance64 (radius self) (encoder_resolution self)
                (data msg -
                   (if initialised_ticks_right self then total_ticks_right self else data msg)))"
  using assms
  by (simp_all add: cb_encoder_to_transform64_def Let_def estimation64_right_fields
        tick_distance64_def)


lemma cb64_right_frame:
  assumes "wheel \<noteq> ''right''"
  shows "initialised_ticks_right (snd (cb_encoder_to_transform64 msg wheel self)) =
           initialised_ticks_right self"
    and "total_ticks_right (snd (cb_encoder_to_transform64 msg wheel self)) = total_ticks_right self"
    and "initial_ticks_right (snd (cb_encoder_to_transform64 msg wheel self)) =
           initial_ticks_right self"
    and "wheel_distance_right (snd (cb_encoder_to_transform64 msg wheel self)) =
           wheel_distance_right self"
  using assms
  by (simp_all add: cb_encoder_to_transform64_def Let_def estimation64_right_fields)


lemma right_tracker64_trace:
  fixes evs name b r
  defines "s \<equiv> exec64 evs (init64 name b r)"
  defines "ts \<equiv> readings ''right'' evs"
  shows "if ts = [] then \<not> initialised_ticks_right s \<and> wheel_distance_right s = Finite 0
         else initialised_ticks_right s \<and> initial_ticks_right s = hd ts \<and>
              total_ticks_right s = last ts \<and>
              wheel_distance_right s =
                foldl (\<lambda>acc dN. fadd acc (tick_distance64 r 135 dN)) (Finite 0) (increments ts)"
  unfolding s_def ts_def
proof (induction evs rule: rev_induct)
  case Nil
  show ?case by (simp add: init64_def)
next
  case (snoc e evs)
  let ?s = "exec64 evs (init64 name b r)"
  have res: "encoder_resolution ?s = 135" and rad: "radius ?s = r"
    by (simp_all add: exec64_params init64_fields)
  show ?case
  proof (cases e)
    case Cycle
    with snoc.IH show ?thesis
      by (simp add: exec64_snoc readings_snoc run_cycle_trackers)
  next
    case (Tick msg wheel)
    show ?thesis
    proof (cases "wheel = ''right''")
      case False
      with Tick snoc.IH show ?thesis
        by (simp add: exec64_snoc readings_snoc cb64_right_frame)
    next
      case True
      have nz: "encoder_resolution ?s \<noteq> 0" using res by simp
      show ?thesis
      proof (cases "readings ''right'' evs = []")
        case True
        with snoc.IH have "\<not> initialised_ticks_right ?s" "wheel_distance_right ?s = Finite 0"
          by simp_all
        with Tick \<open>wheel = ''right''\<close> True show ?thesis
          by (simp add: exec64_snoc readings_snoc cb64_right_tracker [OF nz] res rad
                increments_single)
      next
        case False
        with snoc.IH have ih: "initialised_ticks_right ?s"
          "initial_ticks_right ?s = hd (readings ''right'' evs)"
          "total_ticks_right ?s = last (readings ''right'' evs)"
          "wheel_distance_right ?s =
             foldl (\<lambda>acc dN. fadd acc (tick_distance64 r 135 dN)) (Finite 0)
               (increments (readings ''right'' evs))"
          by simp_all
        with Tick \<open>wheel = ''right''\<close> False show ?thesis
          by (simp add: exec64_snoc readings_snoc cb64_right_tracker [OF nz] res rad
                increments_snoc)
      qed
    qed
  qed
qed

lemma cb64_unknown:
  "wheel \<noteq> ''left'' \<Longrightarrow> wheel \<noteq> ''right'' \<Longrightarrow>
     cb_encoder_to_transform64 msg wheel self = (Inl (NameError ''wheel name not found''), self)"
  by (simp add: cb_encoder_to_transform64_def)

lemma cb64_success:
  assumes "fst (cb_encoder_to_transform64 msg wheel self) = Inr ()"
  shows "encoder_received (snd (cb_encoder_to_transform64 msg wheel self))"
    and "transform_msg (snd (cb_encoder_to_transform64 msg wheel self)) \<noteq> None"
    and "theta (snd (cb_encoder_to_transform64 msg wheel self)) =
           np_mod64
             (fdiv (fsub (wheel_distance_left (snd (cb_encoder_to_transform64 msg wheel self)))
                         (wheel_distance_right (snd (cb_encoder_to_transform64 msg wheel self))))
                   (baseline (snd (cb_encoder_to_transform64 msg wheel self))))
             (fmul (Finite 2) (Finite pi64))"
  using assms
  by (auto simp: cb_encoder_to_transform64_def estimation64_def Let_def split: if_splits)

lemma cb64_failure:
  assumes "fst (cb_encoder_to_transform64 msg wheel self) \<noteq> Inr ()"
  shows "encoder_received (snd (cb_encoder_to_transform64 msg wheel self)) = encoder_received self"
    and "transform_msg (snd (cb_encoder_to_transform64 msg wheel self)) = transform_msg self"
    and "theta (snd (cb_encoder_to_transform64 msg wheel self)) = theta self"
  using assms
  by (auto simp: cb_encoder_to_transform64_def estimation64_def Let_def split: if_splits)

lemma pose64_trace:
  fixes evs name b r
  defines "s \<equiv> exec64 evs (init64 name b r)"
  shows "if encoder_received s
         then b \<noteq> Finite 0 \<and> transform_msg s \<noteq> None \<and>
              theta s =
                np_mod64 (fdiv (fsub (wheel_distance_left s) (wheel_distance_right s)) b)
                  (fmul (Finite 2) (Finite pi64))
         else theta s = Finite 0 \<and> transform_msg s = None"
  unfolding s_def
proof (induction evs rule: rev_induct)
  case Nil
  show ?case by (simp add: init64_def)
next
  case (snoc e evs)
  let ?s = "exec64 evs (init64 name b r)"
  have base: "baseline ?s = b" by (simp add: exec64_params init64_fields)
  show ?case
  proof (cases e)
    case Cycle
    with snoc.IH show ?thesis
      by (simp add: exec64_snoc run_cycle_pose run_cycle_trackers)
  next
    case (Tick msg wheel)
    let ?r = "cb_encoder_to_transform64 msg wheel ?s"
    show ?thesis
    proof (cases "fst ?r = Inr ()")
      case True
      then have "b \<noteq> Finite 0" using base by (simp add: cb64_success_iff)
      with True Tick base show ?thesis
        by (simp add: exec64_snoc cb64_success(1,2) cb64_success(3) [OF True] cb64_params)
    next
      case False
      show ?thesis
      proof (cases "wheel = ''left'' \<or> wheel = ''right''")
        case False
        then have "?r = (Inl (NameError ''wheel name not found''), ?s)"
          by (simp add: cb64_unknown)
        with Tick snoc.IH show ?thesis by (simp add: exec64_snoc)
      next
        case True
        have "encoder_resolution ?s = 135" by (simp add: exec64_params init64_fields)
        with True \<open>fst ?r \<noteq> Inr ()\<close> base have "b = Finite 0"
          by (simp add: cb64_success_iff)
        with snoc.IH have "\<not> encoder_received ?s" "theta ?s = Finite 0" "transform_msg ?s = None"
          by (simp_all split: if_splits)
        with Tick \<open>fst ?r \<noteq> Inr ()\<close> show ?thesis
          by (simp add: exec64_snoc cb64_failure)
      qed
    qed
  qed
qed

lemma received64_iff:
  "encoder_received (exec64 evs (init64 name b r)) \<longleftrightarrow>
     b \<noteq> Finite 0 \<and> (readings ''left'' evs \<noteq> [] \<or> readings ''right'' evs \<noteq> [])"
proof (induction evs rule: rev_induct)
  case Nil
  show ?case by (simp add: init64_def)
next
  case (snoc e evs)
  let ?s = "exec64 evs (init64 name b r)"
  show ?case
  proof (cases e)
    case Cycle
    with snoc.IH show ?thesis by (simp add: exec64_snoc readings_snoc run_cycle_pose)
  next
    case (Tick msg wheel)
    let ?r = "cb_encoder_to_transform64 msg wheel ?s"
    have ok: "fst ?r = Inr () \<longleftrightarrow> (wheel = ''left'' \<or> wheel = ''right'') \<and> b \<noteq> Finite 0"
      by (simp add: cb64_success_iff exec64_params init64_fields)
    show ?thesis
    proof (cases "fst ?r = Inr ()")
      case True
      with ok Tick show ?thesis
        by (auto simp: exec64_snoc readings_snoc cb64_success(1))
    next
      case False
      with ok Tick snoc.IH show ?thesis
        by (auto simp: exec64_snoc readings_snoc cb64_failure(1))
    qed
  qed
qed

text \<open>
  The first message of a wheel adds exactly 0.0 on doubles too, whenever \<open>2 * np.pi\<close>
  times the radius is a finite double.
\<close>

lemma tick_distance64_zero:
  assumes "fmul (fmul (to_double 2) (Finite pi64)) r = Finite c"
  shows "tick_distance64 r 135 0 = Finite 0"
proof -
  have r: "to_double 135 = Finite 135"
    by (simp only: to_double_def of_int_numeral)
       (rule fl_scaled [where k = 45 and n = 4749890231992320];
        simp add: round_even_def Let_def)
  have z: "to_double 0 = Finite 0" by (simp add: to_double_def fl_zero)
  have m: "fmul (Finite c) (Finite 0) = Finite 0" by (simp add: fl_zero)
  have d: "fdiv (Finite 0) (Finite 135) = Finite 0" by (simp add: fl_zero)
  show ?thesis by (simp only: tick_distance64_def assms r z m d)
qed

lemma first_tick64:
  assumes "readings ''left'' evs = []"
    and "fmul (fmul (to_double 2) (Finite pi64)) r = Finite c"
  shows "wheel_distance_left
           (snd (cb_encoder_to_transform64 msg ''left'' (exec64 evs (init64 name b r)))) =
         Finite 0"
proof -
  have "readings ''left'' (evs @ [Tick msg ''left'']) = [data msg]"
    using assms(1) by (simp add: readings_snoc)
  with left_tracker64_trace [of "evs @ [Tick msg ''left'']" name b r]
  show ?thesis
    by (simp add: exec64_snoc increments_single tick_distance64_zero [OF assms(2)] fl_zero)
qed

subsection \<open>Double precision: two runs, rounding by rounding\<close>

text \<open>
  Baseline 0.1 and radius 0.02, as the doubles nearest to them. Every lemma is one
  operation of the code on the values it meets in the runs with readings 0 and 5 or 0, 1, 5
  or 0, 1, 5, 0 of one wheel: the conversion of a count, a product, a quotient, a sum, and
  at last the difference of the two wheels, the ratio and its remainder.
\<close>

lemma ev_to_double_1: "to_double 2 = Finite 2"
  by (simp only: to_double_def of_int_numeral of_int_minus of_int_0 of_int_1) (rule fl_scaled [where k = 51 and n = "4503599627370496"];
    simp add: round_even_def Let_def)

lemma ev_to_double_2: "to_double 135 = Finite 135"
  by (simp only: to_double_def of_int_numeral of_int_minus of_int_0 of_int_1) (rule fl_scaled [where k = 45 and n = "4749890231992320"];
    simp add: round_even_def Let_def)

lemma ev_fmul_3: "fmul (Finite 2) (Finite pi64) = Finite (884279719003555 / 140737488355328)"
  by (simp only: fmul.simps pi64_def) (rule fl_scaled [where k = 50 and n = "7074237752028440"];
    simp add: round_even_def Let_def)

lemma ev_fmul_4: "fmul (Finite (884279719003555 / 140737488355328)) (Finite (5764607523034235 / 288230376151711744)) = Finite (2263756080649101 / 18014398509481984)"
  by (simp only: fmul.simps) (rule fl_scaled [where k = 55 and n = "4527512161298202"];
    simp add: round_even_def Let_def)

lemma ev_to_double_5: "to_double 0 = Finite 0"
  by (simp add: to_double_def of_int_numeral of_int_minus of_int_0 of_int_1 fl_zero)

lemma ev_fmul_6: "fmul (Finite (2263756080649101 / 18014398509481984)) (Finite 0) = Finite 0"
  by (simp add: fmul.simps fl_zero)

lemma ev_fdiv_7: "fdiv (Finite 0) (Finite 135) = Finite 0"
  by (simp add:  fl_zero)

lemma ev_fadd_8: "fadd (Finite 0) (Finite 0) = Finite 0"
  by (simp add: fadd.simps fl_zero)

lemma ev_to_double_9: "to_double 1 = Finite 1"
  by (simp only: to_double_def of_int_numeral of_int_minus of_int_0 of_int_1) (rule fl_scaled [where k = 52 and n = "4503599627370496"];
    simp add: round_even_def Let_def)

lemma ev_fmul_10: "fmul (Finite (2263756080649101 / 18014398509481984)) (Finite 1) = Finite (2263756080649101 / 18014398509481984)"
  by (simp only: fmul.simps) (rule fl_scaled [where k = 55 and n = "4527512161298202"];
    simp add: round_even_def Let_def)

lemma ev_fdiv_11: "fdiv (Finite (2263756080649101 / 18014398509481984)) (Finite 135) = Finite (2146376135726555 / 2305843009213693952)"
  by (rule fdiv_finite, simp,
      (rule fl_scaled [where k = 63 and n = "8585504542906220"]; simp add: round_even_def Let_def))

lemma ev_fadd_12: "fadd (Finite 0) (Finite (2146376135726555 / 2305843009213693952)) = Finite (2146376135726555 / 2305843009213693952)"
  by (simp only: fadd.simps) (rule fl_scaled [where k = 63 and n = "8585504542906220"];
    simp add: round_even_def Let_def)

lemma ev_to_double_13: "to_double 4 = Finite 4"
  by (simp only: to_double_def of_int_numeral of_int_minus of_int_0 of_int_1) (rule fl_scaled [where k = 50 and n = "4503599627370496"];
    simp add: round_even_def Let_def)

lemma ev_fmul_14: "fmul (Finite (2263756080649101 / 18014398509481984)) (Finite 4) = Finite (2263756080649101 / 4503599627370496)"
  by (simp only: fmul.simps) (rule fl_scaled [where k = 53 and n = "4527512161298202"];
    simp add: round_even_def Let_def)

lemma ev_fdiv_15: "fdiv (Finite (2263756080649101 / 4503599627370496)) (Finite 135) = Finite (2146376135726555 / 576460752303423488)"
  by (rule fdiv_finite, simp,
      (rule fl_scaled [where k = 61 and n = "8585504542906220"]; simp add: round_even_def Let_def))

lemma ev_fadd_16: "fadd (Finite (2146376135726555 / 2305843009213693952)) (Finite (2146376135726555 / 576460752303423488)) = Finite (1341485084829097 / 288230376151711744)"
  by (simp only: fadd.simps) (rule fl_scaled [where k = 60 and n = "5365940339316388"];
    simp add: round_even_def Let_def)

lemma ev_to_double_17: "to_double (- 5) = Finite (- 5)"
  by (simp only: to_double_def of_int_numeral of_int_minus of_int_0 of_int_1) (rule fl_scaled [where k = 50 and n = "- 5629499534213120"];
    simp add: round_even_def Let_def)

lemma ev_fmul_18: "fmul (Finite (2263756080649101 / 18014398509481984)) (Finite (- 5)) = Finite (- (176855943800711 / 281474976710656))"
  by (simp only: fmul.simps) (rule fl_scaled [where k = 53 and n = "- 5659390201622752"];
    simp add: round_even_def Let_def)

lemma ev_fdiv_19: "fdiv (Finite (- (176855943800711 / 281474976710656))) (Finite 135) = Finite (- (5365940339316387 / 1152921504606846976))"
  by (rule fdiv_finite, simp,
      (rule fl_scaled [where k = 60 and n = "- 5365940339316387"]; simp add: round_even_def Let_def))

lemma ev_fadd_20: "fadd (Finite (1341485084829097 / 288230376151711744)) (Finite (- (5365940339316387 / 1152921504606846976))) = Finite (1 / 1152921504606846976)"
  by (simp only: fadd.simps) (rule fl_scaled [where k = 112 and n = "4503599627370496"];
    simp add: round_even_def Let_def)

lemma ev_to_double_21: "to_double 5 = Finite 5"
  by (simp only: to_double_def of_int_numeral of_int_minus of_int_0 of_int_1) (rule fl_scaled [where k = 50 and n = "5629499534213120"];
    simp add: round_even_def Let_def)

lemma ev_fmul_22: "fmul (Finite (2263756080649101 / 18014398509481984)) (Finite 5) = Finite (176855943800711 / 281474976710656)"
  by (simp only: fmul.simps) (rule fl_scaled [where k = 53 and n = "5659390201622752"];
    simp add: round_even_def Let_def)

lemma ev_fdiv_23: "fdiv (Finite (176855943800711 / 281474976710656)) (Finite 135) = Finite (5365940339316387 / 1152921504606846976)"
  by (rule fdiv_finite, simp,
      (rule fl_scaled [where k = 60 and n = "5365940339316387"]; simp add: round_even_def Let_def))

lemma ev_fadd_24: "fadd (Finite 0) (Finite (5365940339316387 / 1152921504606846976)) = Finite (5365940339316387 / 1152921504606846976)"
  by (simp only: fadd.simps) (rule fl_scaled [where k = 60 and n = "5365940339316387"];
    simp add: round_even_def Let_def)

lemma ev_fsub_25: "fsub (Finite (5365940339316387 / 1152921504606846976)) (Finite (1341485084829097 / 288230376151711744)) = Finite (- (1 / 1152921504606846976))"
  by (simp only: fsub_def fneg.simps fadd.simps) (rule fl_scaled [where k = 112 and n = "- 4503599627370496"];
    simp add: round_even_def Let_def)

lemma ev_fdiv_26: "fdiv (Finite (- (1 / 1152921504606846976))) (Finite (3602879701896397 / 36028797018963968)) = Finite (- (5 / 576460752303423488))"
  by (rule fdiv_finite, simp,
      (rule fl_scaled [where k = 109 and n = "- 5629499534213120"]; simp add: round_even_def Let_def))

lemma ev_np_mod: "np_mod64 (Finite (- (5 / 576460752303423488))) (Finite (884279719003555 / 140737488355328)) = Finite (884279719003555 / 140737488355328)"
proof -
  have "np_mod64 (Finite (- (5 / 576460752303423488))) (Finite (884279719003555 / 140737488355328)) = fl (- (5 / 576460752303423488) + 884279719003555 / 140737488355328)"
    by (rule np_mod64_small_negative) simp_all
  also have "\<dots> = Finite (884279719003555 / 140737488355328)"
    by (rule fl_scaled [where k = 50 and n = "7074237752028440"]; simp add: round_even_def Let_def)
  finally show ?thesis .
qed

lemmas ev =
  ev_to_double_1 ev_to_double_2 ev_fmul_3 ev_fmul_4 ev_to_double_5 ev_fmul_6 ev_fdiv_7
  ev_fadd_8 ev_to_double_9 ev_fmul_10 ev_fdiv_11 ev_fadd_12 ev_to_double_13 ev_fmul_14
  ev_fdiv_15 ev_fadd_16 ev_to_double_17 ev_fmul_18 ev_fdiv_19 ev_fadd_20 ev_to_double_21
  ev_fmul_22 ev_fdiv_23 ev_fadd_24 ev_fsub_25 ev_fdiv_26 ev_np_mod

lemma sum_0_1_5_0:
  "foldl (\<lambda>acc dN. fadd acc
            (tick_distance64 (Finite (5764607523034235 / 288230376151711744)) 135 dN))
     (Finite 0) [0, 1, 4, - 5] = Finite (1 / 1152921504606846976)"
  by (simp only: foldl.simps tick_distance64_def ev)

lemma sum_0_1_5:
  "foldl (\<lambda>acc dN. fadd acc
            (tick_distance64 (Finite (5764607523034235 / 288230376151711744)) 135 dN))
     (Finite 0) [0, 1, 4] = Finite (1341485084829097 / 288230376151711744)"
  by (simp only: foldl.simps tick_distance64_def ev)

lemma sum_0_5:
  "foldl (\<lambda>acc dN. fadd acc
            (tick_distance64 (Finite (5764607523034235 / 288230376151711744)) 135 dN))
     (Finite 0) [0, 5] = Finite (5365940339316387 / 1152921504606846976)"
  by (simp only: foldl.simps tick_distance64_def ev)

subsection \<open>The heading after a tick\<close>

text \<open>
  Claim C1, as amended. After every encoder message that the callback processes without
  an exception (the wheel is \<open>left\<close> or \<open>right\<close> and the baseline is not zero), the stored
  heading is \<open>np.mod\<close> of the ratio (left distance minus right distance, over the
  baseline) with modulus \<open>2.0 * np.pi\<close>, computed on doubles; and when the ratio is a
  finite double the heading is a finite double between 0 and \<open>2.0 * np.pi\<close>, both ends
  included, as the comment in the code says. When the ratio is not finite the heading is
  NaN.
\<close>

theorem heading_after_tick64:
  assumes "fst (cb_encoder_to_transform64 msg wheel self) = Inr ()"
  shows "let self' = snd (cb_encoder_to_transform64 msg wheel self);
             ratio = fdiv (fsub (wheel_distance_left self') (wheel_distance_right self'))
                       (baseline self')
         in theta self' = np_mod64 ratio (fmul (Finite 2) (Finite pi64)) \<and>
            (case ratio of
               Finite q \<Rightarrow> \<exists>t. theta self' = Finite t \<and> 0 \<le> t \<and> t \<le> 2 * pi64
             | _ \<Rightarrow> theta self' = NaN)"
proof -
  let ?s = "snd (cb_encoder_to_transform64 msg wheel self)"
  let ?ratio = "fdiv (fsub (wheel_distance_left ?s) (wheel_distance_right ?s)) (baseline ?s)"
  have t: "theta ?s = np_mod64 ?ratio (Finite (2 * pi64))"
    using cb64_success(3) [OF assms] by (simp only: two_pi64)
  have "case ?ratio of
          Finite q \<Rightarrow> \<exists>t. theta ?s = Finite t \<and> 0 \<le> t \<and> t \<le> 2 * pi64
        | _ \<Rightarrow> theta ?s = NaN"
  proof (cases ?ratio)
    case (Finite q)
    from np_mod64_range [of q] show ?thesis by (simp only: t Finite double.case)
  next
    case PInf
    then show ?thesis by (simp only: t double.case np_mod64.simps)
  next
    case NInf
    then show ?thesis by (simp only: t double.case np_mod64.simps)
  next
    case NaN
    then show ?thesis by (simp only: t double.case np_mod64.simps)
  qed
  with cb64_success(3) [OF assms] show ?thesis unfolding Let_def by (rule conjI)
qed

theorem heading_after_tick64_witness:
  "fst (cb_encoder_to_transform64 (tick_msg 0 0) ''left''
          (init64 ''duckie'' (Finite (3602879701896397 / 36028797018963968))
             (Finite (5764607523034235 / 288230376151711744)))) = Inr () \<and>
   (let self' = snd (cb_encoder_to_transform64 (tick_msg 0 0) ''left''
                  (init64 ''duckie'' (Finite (3602879701896397 / 36028797018963968))
                     (Finite (5764607523034235 / 288230376151711744))));
        ratio = fdiv (fsub (wheel_distance_left self') (wheel_distance_right self'))
                  (baseline self')
    in theta self' = np_mod64 ratio (fmul (Finite 2) (Finite pi64)) \<and>
       (case ratio of
          Finite q \<Rightarrow> \<exists>t. theta self' = Finite t \<and> 0 \<le> t \<and> t \<le> 2 * pi64
        | _ \<Rightarrow> theta self' = NaN))"
proof -
  have h: "fst (cb_encoder_to_transform64 (tick_msg 0 0) ''left''
          (init64 ''duckie'' (Finite (3602879701896397 / 36028797018963968))
             (Finite (5764607523034235 / 288230376151711744)))) = Inr ()"
    by (simp add: cb64_success_iff init64_fields)
  from h heading_after_tick64 [OF h] show ?thesis by (rule conjI)
qed

text \<open>
  The upper end is reached, so the heading is not always below \<open>2.0 * np.pi\<close>. Baseline
  0.1, radius 0.02; the right wheel reports 0, 1 and 5, then the left wheel 0 and 5. Both
  wheels have turned by 5 ticks, but the right distance is the sum of two rounded parts and
  ends one unit in the last place above the left one. The ratio is \<open>-5 / 2^59\<close>, and its
  remainder, the rounded sum of that and \<open>2.0 * np.pi\<close>, is \<open>2.0 * np.pi\<close> itself.
\<close>

theorem heading_two_pi_counterexample:
  "let self = exec64 [Tick (tick_msg 0 0) ''right'', Tick (tick_msg 2 1) ''right'',
                      Tick (tick_msg 3 5) ''right'', Tick (tick_msg 4 0) ''left'']
                (init64 ''duckie'' (Finite (3602879701896397 / 36028797018963968))
                   (Finite (5764607523034235 / 288230376151711744)));
       self' = snd (cb_encoder_to_transform64 (tick_msg 5 5) ''left'' self)
   in fst (cb_encoder_to_transform64 (tick_msg 5 5) ''left'' self) = Inr () \<and>
      fdiv (fsub (wheel_distance_left self') (wheel_distance_right self')) (baseline self') =
        Finite (- (5 / 576460752303423488)) \<and>
      theta self' = fmul (Finite 2) (Finite pi64) \<and>
      theta self' = Finite (2 * pi64) \<and>
      \<not> (\<exists>t. theta self' = Finite t \<and> 0 \<le> t \<and> t < 2 * pi64)"
proof -
  let ?b = "Finite (3602879701896397 / 36028797018963968)"
  let ?r = "Finite (5764607523034235 / 288230376151711744)"
  let ?evs = "[Tick (tick_msg 0 0) ''right'', Tick (tick_msg 2 1) ''right'',
               Tick (tick_msg 3 5) ''right'', Tick (tick_msg 4 0) ''left'']"
  let ?all = "?evs @ [Tick (tick_msg 5 5) ''left'']"
  let ?s = "exec64 ?evs (init64 ''duckie'' ?b ?r)"
  let ?s' = "snd (cb_encoder_to_transform64 (tick_msg 5 5) ''left'' ?s)"
  have s': "?s' = exec64 ?all (init64 ''duckie'' ?b ?r)"
    by (simp only: exec64_snoc step64.simps)
  have ok: "fst (cb_encoder_to_transform64 (tick_msg 5 5) ''left'' ?s) = Inr ()"
    by (simp only: cb64_success_iff exec64_params init64_fields) simp
  have l: "readings ''left'' ?all = [0, 5]" and r: "readings ''right'' ?all = [0, 1, 5]"
    by (simp_all add: tick_msg_def)
  have il: "increments [0, 5] = [0, 5]" and ir: "increments [0, 1, 5] = [0, 1, 4]"
    by (simp_all add: increments_def)
  have wl: "wheel_distance_left ?s' = Finite (5365940339316387 / 1152921504606846976)"
    using left_tracker64_trace [of ?all "''duckie''" ?b ?r]
    by (simp only: s' l il sum_0_5 list.simps if_False list.sel last.simps)
  have wr: "wheel_distance_right ?s' = Finite (1341485084829097 / 288230376151711744)"
    using right_tracker64_trace [of ?all "''duckie''" ?b ?r]
    by (simp only: s' r ir sum_0_1_5 list.simps if_False list.sel last.simps)
  have base: "baseline ?s' = ?b"
    by (simp only: s' exec64_params init64_fields)
  have ratio: "fdiv (fsub (wheel_distance_left ?s') (wheel_distance_right ?s')) (baseline ?s') =
      Finite (- (5 / 576460752303423488))"
    by (simp only: wl wr base ev)
  have th: "theta ?s' = fmul (Finite 2) (Finite pi64)"
    using cb64_success(3) [OF ok] by (simp only: ratio ev)
  have tp: "fmul (Finite 2) (Finite pi64) = Finite (2 * pi64)" by (rule two_pi64)
  have "\<not> (\<exists>t. theta ?s' = Finite t \<and> 0 \<le> t \<and> t < 2 * pi64)"
    unfolding th tp by simp
  with ok ratio th th [unfolded tp] show ?thesis unfolding Let_def by (intro conjI)
qed

subsection \<open>The distance of a wheel\<close>

text \<open>
  Claim C2, as amended. In a run of the node from its start, as soon as at least one tick
  count has been delivered for a wheel, the wheel's two counters hold the first and the
  last count, so their difference is the last count minus the first whatever came in
  between; and the wheel's distance is the running sum on doubles, from 0.0 and in the
  order of arrival, of the rounded distances for the differences of the counts (the
  first count against itself, every later one against its predecessor). A count below
  its predecessor adds a negative distance; no count makes a callback raise.
\<close>

theorem wheel_distance_running_sum:
  "(readings ''left'' evs \<noteq> [] \<longrightarrow>
      (let self = exec64 evs (init64 name b r); ts = readings ''left'' evs
       in total_ticks_left self - initial_ticks_left self = last ts - hd ts \<and>
          wheel_distance_left self =
            foldl (\<lambda>acc dN. fadd acc (tick_distance64 r (encoder_resolution self) dN))
              (Finite 0) (increments ts))) \<and>
   (readings ''right'' evs \<noteq> [] \<longrightarrow>
      (let self = exec64 evs (init64 name b r); ts = readings ''right'' evs
       in total_ticks_right self - initial_ticks_right self = last ts - hd ts \<and>
          wheel_distance_right self =
            foldl (\<lambda>acc dN. fadd acc (tick_distance64 r (encoder_resolution self) dN))
              (Finite 0) (increments ts))) \<and>
   (b \<noteq> Finite 0 \<longrightarrow>
      fst (cb_encoder_to_transform64 msg ''left'' (exec64 evs (init64 name b r))) = Inr () \<and>
      fst (cb_encoder_to_transform64 msg ''right'' (exec64 evs (init64 name b r))) = Inr ())"
proof -
  have res: "encoder_resolution (exec64 evs (init64 name b r)) = 135"
    by (simp add: exec64_params init64_fields)
  have "fst (cb_encoder_to_transform64 msg ''left'' (exec64 evs (init64 name b r))) = Inr ()"
       "fst (cb_encoder_to_transform64 msg ''right'' (exec64 evs (init64 name b r))) = Inr ()"
    if "b \<noteq> Finite 0"
    using that by (simp_all add: cb64_success_iff exec64_params init64_fields)
  then show ?thesis
    unfolding Let_def res
    using left_tracker64_trace [of evs name b r] right_tracker64_trace [of evs name b r]
    by (simp split: if_splits)
qed

theorem wheel_distance_running_sum_witness:
  "readings ''left''
     [Tick (tick_msg 0 10) ''left'', Tick (tick_msg 2 100) ''right'', Cycle,
      Tick (tick_msg 3 60) ''left'', Tick (tick_msg 4 145) ''left'',
      Tick (tick_msg 5 40) ''right''] = [10, 60, 145] \<and>
   wheel_distance_left
     (exec64 [Tick (tick_msg 0 10) ''left'', Tick (tick_msg 2 100) ''right'', Cycle,
              Tick (tick_msg 3 60) ''left'', Tick (tick_msg 4 145) ''left'',
              Tick (tick_msg 5 40) ''right'']
        (init64 ''duckie'' (Finite (3602879701896397 / 36028797018963968))
           (Finite (5764607523034235 / 288230376151711744)))) =
     foldl (\<lambda>acc dN. fadd acc
              (tick_distance64 (Finite (5764607523034235 / 288230376151711744)) 135 dN))
       (Finite 0) [0, 50, 85] \<and>
   readings ''right''
     [Tick (tick_msg 0 10) ''left'', Tick (tick_msg 2 100) ''right'', Cycle,
      Tick (tick_msg 3 60) ''left'', Tick (tick_msg 4 145) ''left'',
      Tick (tick_msg 5 40) ''right''] = [100, 40] \<and>
   wheel_distance_right
     (exec64 [Tick (tick_msg 0 10) ''left'', Tick (tick_msg 2 100) ''right'', Cycle,
              Tick (tick_msg 3 60) ''left'', Tick (tick_msg 4 145) ''left'',
              Tick (tick_msg 5 40) ''right'']
        (init64 ''duckie'' (Finite (3602879701896397 / 36028797018963968))
           (Finite (5764607523034235 / 288230376151711744)))) =
     foldl (\<lambda>acc dN. fadd acc
              (tick_distance64 (Finite (5764607523034235 / 288230376151711744)) 135 dN))
       (Finite 0) [0, - 60]"
proof -
  let ?evs = "[Tick (tick_msg 0 10) ''left'', Tick (tick_msg 2 100) ''right'', Cycle,
      Tick (tick_msg 3 60) ''left'', Tick (tick_msg 4 145) ''left'',
      Tick (tick_msg 5 40) ''right'']"
  let ?b = "Finite (3602879701896397 / 36028797018963968)"
  let ?r = "Finite (5764607523034235 / 288230376151711744)"
  have l: "readings ''left'' ?evs = [10, 60, 145]" by (simp add: tick_msg_def)
  have r: "readings ''right'' ?evs = [100, 40]" by (simp add: tick_msg_def)
  have il: "increments [10, 60, 145] = [0, 50, 85]" and ir: "increments [100, 40] = [0, - 60]"
    by (simp_all add: increments_def)
  have res: "encoder_resolution (exec64 ?evs (init64 ''duckie'' ?b ?r)) = 135"
    by (simp only: exec64_params init64_fields)
  note w = wheel_distance_running_sum [of ?evs "''duckie''" ?b ?r, unfolded l r Let_def res il ir]
  from w have a: "wheel_distance_left (exec64 ?evs (init64 ''duckie'' ?b ?r)) =
      foldl (\<lambda>acc dN. fadd acc (tick_distance64 ?r 135 dN)) (Finite 0) [0, 50, 85]"
    by blast
  from w have b: "wheel_distance_right (exec64 ?evs (init64 ''duckie'' ?b ?r)) =
      foldl (\<lambda>acc dN. fadd acc (tick_distance64 ?r 135 dN)) (Finite 0) [0, - 60]"
    by blast
  from l a r b show ?thesis by (intro conjI)
qed

text \<open>
  The running sum is not the closed form. Baseline 0.1, radius 0.02: the readings 0, 1, 5, 0
  of one wheel end where they began, and the distance left is \<open>2^-60\<close>, not 0; and the
  readings 0, 5 and 0, 1, 5 have the same first and last count and different distances.
\<close>

theorem wheel_distance_rounding_counterexample:
  "let init = init64 ''duckie'' (Finite (3602879701896397 / 36028797018963968))
                (Finite (5764607523034235 / 288230376151711744));
       evs = [Tick (tick_msg 0 0) ''left'', Tick (tick_msg 2 1) ''left'',
              Tick (tick_msg 3 5) ''left'', Tick (tick_msg 4 0) ''left''];
       direct = [Tick (tick_msg 0 0) ''left'', Tick (tick_msg 3 5) ''left''];
       singly = [Tick (tick_msg 0 0) ''left'', Tick (tick_msg 2 1) ''left'',
                 Tick (tick_msg 3 5) ''left'']
   in readings ''left'' evs = [0, 1, 5, 0] \<and>
      last (readings ''left'' evs) - hd (readings ''left'' evs) = 0 \<and>
      wheel_distance_left (exec64 evs init) = Finite (1 / 1152921504606846976) \<and>
      wheel_distance_left (exec64 evs init) \<noteq> Finite 0 \<and>
      wheel_distance_left (exec64 direct init) = Finite (5365940339316387 / 1152921504606846976) \<and>
      wheel_distance_left (exec64 singly init) = Finite (1341485084829097 / 288230376151711744) \<and>
      wheel_distance_left (exec64 direct init) \<noteq> wheel_distance_left (exec64 singly init)"
proof -
  let ?b = "Finite (3602879701896397 / 36028797018963968)"
  let ?r = "Finite (5764607523034235 / 288230376151711744)"
  let ?i = "init64 ''duckie'' ?b ?r"
  let ?evs = "[Tick (tick_msg 0 0) ''left'', Tick (tick_msg 2 1) ''left'',
              Tick (tick_msg 3 5) ''left'', Tick (tick_msg 4 0) ''left'']"
  let ?direct = "[Tick (tick_msg 0 0) ''left'', Tick (tick_msg 3 5) ''left'']"
  let ?singly = "[Tick (tick_msg 0 0) ''left'', Tick (tick_msg 2 1) ''left'',
                 Tick (tick_msg 3 5) ''left'']"
  have l: "readings ''left'' ?evs = [0, 1, 5, 0]" "readings ''left'' ?direct = [0, 5]"
    "readings ''left'' ?singly = [0, 1, 5]"
    by (simp_all add: tick_msg_def)
  have i: "increments [0, 1, 5, 0] = [0, 1, 4, - 5]" "increments [0, 5] = [0, 5]"
    "increments [0, 1, 5] = [0, 1, 4]"
    by (simp_all add: increments_def)
  have 1: "wheel_distance_left (exec64 ?evs ?i) = Finite (1 / 1152921504606846976)"
    using left_tracker64_trace [of ?evs "''duckie''" ?b ?r]
    by (simp only: l i sum_0_1_5_0 list.simps if_False)
  have 2: "wheel_distance_left (exec64 ?direct ?i) =
      Finite (5365940339316387 / 1152921504606846976)"
    using left_tracker64_trace [of ?direct "''duckie''" ?b ?r]
    by (simp only: l i sum_0_5 list.simps if_False)
  have 3: "wheel_distance_left (exec64 ?singly ?i) =
      Finite (1341485084829097 / 288230376151711744)"
    using left_tracker64_trace [of ?singly "''duckie''" ?b ?r]
    by (simp only: l i sum_0_1_5 list.simps if_False)
  have 4: "last (readings ''left'' ?evs) - hd (readings ''left'' ?evs) = 0"
    unfolding l by simp
  have 5: "wheel_distance_left (exec64 ?evs ?i) \<noteq> Finite 0" unfolding 1 by simp
  have 6: "wheel_distance_left (exec64 ?direct ?i) \<noteq> wheel_distance_left (exec64 ?singly ?i)"
    unfolding 2 3 by simp
  from l(1) 4 1 5 2 3 6 show ?thesis unfolding Let_def by (intro conjI)
qed

subsection \<open>The first tick of a wheel\<close>

text \<open>
  Claim C3. In a run of the node from its start in which no tick count has yet been
  delivered for a wheel, the wheel is not initialised; the first message for it stores
  its count as the last and as the first count, sets the wheel's flag, and adds a
  distance of exactly 0, so the wheel's distance is still 0, whatever the count is.
\<close>

theorem first_tick_seeds_tracker:
  "(readings ''left'' evs = [] \<longrightarrow>
      (let self = exec evs (init name b r);
           self' = snd (cb_encoder_to_transform msg ''left'' self)
       in \<not> initialised_ticks_left self \<and>
          initialised_ticks_left self' \<and>
          total_ticks_left self' = data msg \<and>
          initial_ticks_left self' = data msg \<and>
          wheel_distance_left self' - wheel_distance_left self = 0 \<and>
          wheel_distance_left self' = 0)) \<and>
   (readings ''right'' evs = [] \<longrightarrow>
      (let self = exec evs (init name b r);
           self' = snd (cb_encoder_to_transform msg ''right'' self)
       in \<not> initialised_ticks_right self \<and>
          initialised_ticks_right self' \<and>
          total_ticks_right self' = data msg \<and>
          initial_ticks_right self' = data msg \<and>
          wheel_distance_right self' - wheel_distance_right self = 0 \<and>
          wheel_distance_right self' = 0))"
proof -
  let ?s = "exec evs (init name b r)"
  have nz: "encoder_resolution ?s \<noteq> 0" by (simp add: exec_params init_fields)
  have "readings ''left'' evs = [] \<Longrightarrow>
          \<not> initialised_ticks_left ?s \<and> wheel_distance_left ?s = 0"
    using left_tracker_trace [of evs name b r] by simp
  moreover have "readings ''right'' evs = [] \<Longrightarrow>
          \<not> initialised_ticks_right ?s \<and> wheel_distance_right ?s = 0"
    using right_tracker_trace [of evs name b r] by simp
  ultimately show ?thesis
    by (simp add: Let_def cb_left_tracker [OF nz] cb_right_tracker [OF nz])
qed

theorem first_tick_seeds_tracker_witness:
  "readings ''left'' [Tick (tick_msg 0 500) ''right'', Cycle] = [] \<and>
   (let self = exec [Tick (tick_msg 0 500) ''right'', Cycle] (init ''duckie'' (1 / 10) (1 / 50));
        self' = snd (cb_encoder_to_transform (tick_msg 1 (- 77)) ''left'' self)
    in \<not> initialised_ticks_left self \<and>
       initialised_ticks_left self' \<and>
       total_ticks_left self' = - 77 \<and>
       initial_ticks_left self' = - 77 \<and>
       wheel_distance_left self' - wheel_distance_left self = 0 \<and>
       wheel_distance_left self' = 0) \<and>
   readings ''right'' [] = [] \<and>
   (let self = exec [] (init ''duckie'' (1 / 10) (1 / 50));
        self' = snd (cb_encoder_to_transform (tick_msg 1 4096) ''right'' self)
    in \<not> initialised_ticks_right self \<and>
       initialised_ticks_right self' \<and>
       total_ticks_right self' = 4096 \<and>
       initial_ticks_right self' = 4096 \<and>
       wheel_distance_right self' - wheel_distance_right self = 0 \<and>
       wheel_distance_right self' = 0)"
proof -
  have l: "readings ''left'' [Tick (tick_msg 0 500) ''right'', Cycle] = []" by simp
  have r: "readings ''right'' [] = []" by simp
  have d: "data (tick_msg 1 (- 77)) = - 77" "data (tick_msg 1 4096) = 4096"
    by (simp_all add: tick_msg_def)
  note a = first_tick_seeds_tracker
         [where evs = "[Tick (tick_msg 0 500) ''right'', Cycle]" and name = "''duckie''"
            and b = "1 / 10" and r = "1 / 50" and msg = "tick_msg 1 (- 77)",
          THEN conjunct1, THEN mp, OF l, unfolded d]
  note b = first_tick_seeds_tracker
         [where evs = "[]" and name = "''duckie''"
            and b = "1 / 10" and r = "1 / 50" and msg = "tick_msg 1 4096",
          THEN conjunct2, THEN mp, OF r, unfolded d]
  from l a r b show ?thesis by (intro conjI)
qed

subsection \<open>The flag \<open>encoder_received\<close>\<close>

text \<open>
  Claim C4. The flag is false in the state \<open>__init__\<close> builds and stays false as long
  as no message for the left or the right wheel has been delivered; in a run from the
  start it is true exactly when the baseline is not zero (so that callbacks for the two
  wheels return normally) and a message for one of the two wheels has been delivered; a
  callback that returns normally sets it; a callback that raises leaves it as it was; and once it is
  true, no callback, no cycle of the publish loop and no sequence of them makes it false
  again.
\<close>

theorem encoder_received_once:
  "\<not> encoder_received (init name b r) \<and>
   (readings ''left'' evs = [] \<and> readings ''right'' evs = [] \<longrightarrow>
      \<not> encoder_received (exec evs (init name b r))) \<and>
   (encoder_received (exec evs (init name b r)) \<longleftrightarrow>
      b \<noteq> 0 \<and> (readings ''left'' evs \<noteq> [] \<or> readings ''right'' evs \<noteq> [])) \<and>
   (fst (cb_encoder_to_transform msg wheel self) = Inr () \<longrightarrow>
      encoder_received (snd (cb_encoder_to_transform msg wheel self))) \<and>
   (fst (cb_encoder_to_transform msg wheel self) \<noteq> Inr () \<longrightarrow>
      encoder_received (snd (cb_encoder_to_transform msg wheel self)) = encoder_received self) \<and>
   (encoder_received self \<longrightarrow>
      encoder_received (step e self) \<and> encoder_received (exec es self) \<and>
      encoder_received (snd (run n self)))"
proof (intro conjI impI)
  show "\<not> encoder_received (init name b r)" by (simp add: init_def)
next
  assume "readings ''left'' evs = [] \<and> readings ''right'' evs = []"
  then have "encoder_received (init name b r) = encoder_received (exec evs (init name b r))"
    by (intro readings_none_received) simp_all
  then show "\<not> encoder_received (exec evs (init name b r))" by (simp add: init_def)
next
  show "encoder_received (exec evs (init name b r)) \<longleftrightarrow>
      b \<noteq> 0 \<and> (readings ''left'' evs \<noteq> [] \<or> readings ''right'' evs \<noteq> [])"
    by (rule received_iff)
next
  assume "fst (cb_encoder_to_transform msg wheel self) = Inr ()"
  then show "encoder_received (snd (cb_encoder_to_transform msg wheel self))"
    by (rule cb_success(1))
next
  assume "fst (cb_encoder_to_transform msg wheel self) \<noteq> Inr ()"
  then show "encoder_received (snd (cb_encoder_to_transform msg wheel self)) =
      encoder_received self"
    by (rule cb_failure(1))
next
  assume r: "encoder_received self"
  from exec_received [OF r, of "[e]"] show "encoder_received (step e self)" by simp
  from r show "encoder_received (exec es self)" by (rule exec_received)
  show "encoder_received (snd (run n self))"
  proof (cases "transform_msg self")
    case (Some m)
    with r show ?thesis by (simp add: run_ready)
  next
    case None
    with r show ?thesis by (cases n) (simp_all add: run_cycle_def)
  qed
qed

theorem encoder_received_once_witness:
  "\<not> encoder_received (init ''duckie'' (1 / 10) (1 / 50)) \<and>
   \<not> encoder_received (exec [Cycle, Tick (tick_msg 0 5) ''front'', Cycle]
        (init ''duckie'' (1 / 10) (1 / 50))) \<and>
   encoder_received (snd (cb_encoder_to_transform (tick_msg 1 7) ''right''
        (init ''duckie'' (1 / 10) (1 / 50)))) \<and>
   \<not> encoder_received (snd (cb_encoder_to_transform (tick_msg 1 7) ''front''
        (init ''duckie'' (1 / 10) (1 / 50)))) \<and>
   encoder_received (step (Tick (tick_msg 2 9) ''front'')
        (snd (cb_encoder_to_transform (tick_msg 1 7) ''right''
           (init ''duckie'' (1 / 10) (1 / 50))))) \<and>
   encoder_received (exec [Cycle, Tick (tick_msg 2 3) ''left'', Cycle]
        (snd (cb_encoder_to_transform (tick_msg 1 7) ''right''
           (init ''duckie'' (1 / 10) (1 / 50))))) \<and>
   encoder_received (snd (run 3
        (snd (cb_encoder_to_transform (tick_msg 1 7) ''right''
           (init ''duckie'' (1 / 10) (1 / 50))))))"
proof -
  let ?i = "init ''duckie'' (1 / 10) (1 / 50)"
  let ?s = "snd (cb_encoder_to_transform (tick_msg 1 7) ''right'' ?i)"
  have ok: "fst (cb_encoder_to_transform (tick_msg 1 7) ''right'' ?i) = Inr ()"
    by (simp add: cb_success_iff init_fields)
  have bad: "fst (cb_encoder_to_transform (tick_msg 1 7) ''front'' ?i) \<noteq> Inr ()"
    by (simp add: cb_success_iff)
  have none: "readings ''left'' [Cycle, Tick (tick_msg 0 5) ''front'', Cycle] = [] \<and>
     readings ''right'' [Cycle, Tick (tick_msg 0 5) ''front'', Cycle] = []"
    by simp
  have i: "\<not> encoder_received ?i" by (simp add: init_def)
  note a = encoder_received_once
    [where name = "''duckie''" and b = "1 / 10" and r = "1 / 50"
       and evs = "[Cycle, Tick (tick_msg 0 5) ''front'', Cycle]"
       and msg = "tick_msg 1 7" and wheel = "''right''" and self = ?i]
  note b = encoder_received_once
    [where name = "''duckie''" and b = "1 / 10" and r = "1 / 50"
       and msg = "tick_msg 1 7" and wheel = "''front''" and self = ?i]
  note c = encoder_received_once
    [where self = ?s and e = "Tick (tick_msg 2 9) ''front''"
       and es = "[Cycle, Tick (tick_msg 2 3) ''left'', Cycle]" and n = 3]
  from a none have 1: "\<not> encoder_received (exec [Cycle, Tick (tick_msg 0 5) ''front'', Cycle] ?i)"
    by blast
  from a ok have 2: "encoder_received ?s" by blast
  from b bad i have 3:
    "\<not> encoder_received (snd (cb_encoder_to_transform (tick_msg 1 7) ''front'' ?i))"
    by blast
  from c 2 have 4: "encoder_received (step (Tick (tick_msg 2 9) ''front'') ?s)"
    "encoder_received (exec [Cycle, Tick (tick_msg 2 3) ''left'', Cycle] ?s)"
    "encoder_received (snd (run 3 ?s))"
    by blast+
  from i 1 2 3 4 show ?thesis by (intro conjI)
qed

subsection \<open>The publish loop\<close>

text \<open>
  Claim C5. In every state of a run, a cycle of the publish loop with the flag false hands
  nothing to the publisher or to the broadcaster and changes nothing; with the flag true
  there is a stored message, and the cycle appends exactly that message once to each of
  the two. Without a callback in between, \<open>n\<close> cycles append \<open>n\<close> copies of the same
  message.
\<close>

theorem publish_cycle:
  "let self = exec evs (init name b r) in
     (\<not> encoder_received self \<longrightarrow>
        run_cycle self = (Inr (), self) \<and> run n self = (Inr (), self)) \<and>
     (encoder_received self \<longrightarrow>
        (\<exists>m. transform_msg self = Some m \<and>
           run_cycle self =
             (Inr (), self\<lparr>pub_transform := pub_transform self @ [m],
                           broadcaster := broadcaster self @ [m]\<rparr>) \<and>
           run n self =
             (Inr (), self\<lparr>pub_transform := pub_transform self @ replicate n m,
                           broadcaster := broadcaster self @ replicate n m\<rparr>)))"
proof -
  let ?s = "exec evs (init name b r)"
  have "run_cycle ?s = (Inr (), ?s) \<and> run n ?s = (Inr (), ?s)" if "\<not> encoder_received ?s"
    using that by (simp add: run_not_ready run_cycle_def)
  moreover have "\<exists>m. transform_msg ?s = Some m \<and>
           run_cycle ?s =
             (Inr (), ?s\<lparr>pub_transform := pub_transform ?s @ [m],
                         broadcaster := broadcaster ?s @ [m]\<rparr>) \<and>
           run n ?s =
             (Inr (), ?s\<lparr>pub_transform := pub_transform ?s @ replicate n m,
                         broadcaster := broadcaster ?s @ replicate n m\<rparr>)"
    if rdy: "encoder_received ?s"
  proof -
    from pose_trace [of evs name b r] rdy obtain m where m: "transform_msg ?s = Some m"
      by auto
    from rdy m have "run_cycle ?s =
             (Inr (), ?s\<lparr>pub_transform := pub_transform ?s @ [m],
                         broadcaster := broadcaster ?s @ [m]\<rparr>)"
      by (simp add: run_cycle_def)
    with m run_ready [OF rdy m, of n] show ?thesis by blast
  qed
  ultimately show ?thesis unfolding Let_def by blast
qed

theorem publish_cycle_witness:
  "\<not> encoder_received (exec [Cycle] (init ''duckie'' (1 / 10) (1 / 50))) \<and>
   run_cycle (exec [Cycle] (init ''duckie'' (1 / 10) (1 / 50))) =
     (Inr (), exec [Cycle] (init ''duckie'' (1 / 10) (1 / 50))) \<and>
   encoder_received (exec [Tick (tick_msg 5 0) ''left''] (init ''duckie'' (1 / 10) (1 / 50))) \<and>
   (\<exists>m. transform_msg (exec [Tick (tick_msg 5 0) ''left''] (init ''duckie'' (1 / 10) (1 / 50))) =
           Some m \<and>
        pub_transform
          (snd (run 2 (exec [Tick (tick_msg 5 0) ''left''] (init ''duckie'' (1 / 10) (1 / 50))))) =
          [m, m] \<and>
        broadcaster
          (snd (run 2 (exec [Tick (tick_msg 5 0) ''left''] (init ''duckie'' (1 / 10) (1 / 50))))) =
          [m, m])"
proof -
  let ?i = "init ''duckie'' (1 / 10) (1 / 50)"
  let ?s = "exec [Tick (tick_msg 5 0) ''left''] ?i"
  have n: "\<not> encoder_received (exec [Cycle] ?i)"
    by (simp add: run_cycle_pose init_def)
  have ok: "fst (cb_encoder_to_transform (tick_msg 5 0) ''left'' ?i) = Inr ()"
    by (simp add: cb_success_iff init_fields)
  have y: "encoder_received ?s" using cb_success(1) [OF ok] by simp
  have p: "pub_transform ?s = []" "broadcaster ?s = []"
    using cb_success(4,5) [OF ok] by (simp_all add: init_def)
  from publish_cycle [of "[Cycle]" "''duckie''" "1 / 10" "1 / 50" 0] n
  have 1: "run_cycle (exec [Cycle] ?i) = (Inr (), exec [Cycle] ?i)"
    unfolding Let_def by blast
  from publish_cycle [of "[Tick (tick_msg 5 0) ''left'']" "''duckie''" "1 / 10" "1 / 50" 2] y
  obtain m where m: "transform_msg ?s = Some m"
    and "run 2 ?s = (Inr (), ?s\<lparr>pub_transform := pub_transform ?s @ replicate 2 m,
                           broadcaster := broadcaster ?s @ replicate 2 m\<rparr>)"
    unfolding Let_def by blast
  then have "pub_transform (snd (run 2 ?s)) = [m, m]" "broadcaster (snd (run 2 ?s)) = [m, m]"
    using p by (simp_all add: numeral_2_eq_2)
  with m have 2: "\<exists>m. transform_msg ?s = Some m \<and> pub_transform (snd (run 2 ?s)) = [m, m] \<and>
      broadcaster (snd (run 2 ?s)) = [m, m]"
    by blast
  from n 1 y 2 show ?thesis by (intro conjI)
qed

subsection \<open>An unknown wheel name\<close>

text \<open>
  Claim C6. A callback whose wheel name is neither \<open>left\<close> nor \<open>right\<close> raises
  \<open>NameError\<close>; it does not return normally.
\<close>

theorem unknown_wheel_raises:
  assumes "wheel \<noteq> ''left''" and "wheel \<noteq> ''right''"
  shows "fst (cb_encoder_to_transform msg wheel self) = Inl (NameError ''wheel name not found'')"
  using assms by (simp add: cb_unknown)

theorem unknown_wheel_raises_witness:
  "''front'' \<noteq> ''left'' \<and> ''front'' \<noteq> ''right'' \<and>
   fst (cb_encoder_to_transform (tick_msg 3 42) ''front''
          (exec [Tick (tick_msg 0 0) ''left''] (init ''duckie'' (1 / 10) (1 / 50)))) =
     Inl (NameError ''wheel name not found'')"
proof -
  have l: "''front'' \<noteq> ''left''" and r: "''front'' \<noteq> ''right''" by simp_all
  from l r unknown_wheel_raises [OF l r] show ?thesis by (intro conjI)
qed

subsection \<open>The heading in every state of a run\<close>

text \<open>
  Claim C7, as amended. In every state of a run from the start, the heading is
  \<open>np.mod\<close> of the ratio (left distance minus right distance over the baseline) with
  modulus \<open>2\<pi>\<close>, the ratio being the first argument and \<open>2\<pi>\<close> the second, once a
  callback has returned normally, and it is the initial 0 before. Nothing else assigns
  it: a cycle of the publish loop and a callback that raises leave it as it was.
\<close>

theorem heading_invariant:
  "(let self = exec evs (init name b r) in
      if encoder_received self
      then theta self =
             np_mod ((wheel_distance_left self - wheel_distance_right self) / baseline self)
               (2 * pi)
      else theta self = 0) \<and>
   theta (snd (run_cycle self')) = theta self' \<and>
   (fst (cb_encoder_to_transform msg wheel self') \<noteq> Inr () \<longrightarrow>
      theta (snd (cb_encoder_to_transform msg wheel self')) = theta self')"
proof -
  have "baseline (exec evs (init name b r)) = b" by (simp add: exec_params init_fields)
  with pose_trace [of evs name b r] show ?thesis
    by (simp add: Let_def run_cycle_pose cb_failure(3))
qed

theorem heading_invariant_witness:
  "encoder_received (exec [Tick (tick_msg 0 0) ''left'', Tick (tick_msg 2 135) ''left'']
                     (init ''duckie'' (1 / 10) (1 / 50))) \<and>
   theta (exec [Tick (tick_msg 0 0) ''left'', Tick (tick_msg 2 135) ''left'']
                     (init ''duckie'' (1 / 10) (1 / 50))) = 2 * pi / 5 \<and>
   fst (cb_encoder_to_transform (tick_msg 3 9) ''front''
          (exec [Tick (tick_msg 0 0) ''left'', Tick (tick_msg 2 135) ''left'']
                     (init ''duckie'' (1 / 10) (1 / 50)))) \<noteq> Inr () \<and>
   theta (snd (cb_encoder_to_transform (tick_msg 3 9) ''front''
          (exec [Tick (tick_msg 0 0) ''left'', Tick (tick_msg 2 135) ''left'']
                     (init ''duckie'' (1 / 10) (1 / 50))))) = 2 * pi / 5"
proof -
  let ?s = "exec [Tick (tick_msg 0 0) ''left'', Tick (tick_msg 2 135) ''left'']
                     (init ''duckie'' (1 / 10) (1 / 50))"
  have bad: "fst (cb_encoder_to_transform (tick_msg 3 9) ''front'' ?s) \<noteq> Inr ()"
    by (simp only: cb_success_iff) simp
  have ratio: "(pi / 25 - 0) / (1 / 10) = 2 * pi / 5" by simp
  note h = heading_invariant
    [where evs = "[Tick (tick_msg 0 0) ''left'', Tick (tick_msg 2 135) ''left'']"
       and name = "''duckie''" and b = "1 / 10" and r = "1 / 50"
       and self' = ?s and msg = "tick_msg 3 9" and wheel = "''front''"]
  have t: "theta ?s = 2 * pi / 5"
    using h [THEN conjunct1, unfolded Let_def]
    by (simp only: example_run ratio np_mod_example if_True)
  have "theta (snd (cb_encoder_to_transform (tick_msg 3 9) ''front'' ?s)) = theta ?s"
    using h [THEN conjunct2, THEN conjunct2] bad by (rule mp)
  with t have "theta (snd (cb_encoder_to_transform (tick_msg 3 9) ''front'' ?s)) = 2 * pi / 5"
    by (simp only:)
  with example_run(1) t bad show ?thesis by (intro conjI)
qed

text \<open>
  With the two arguments of \<open>np.mod\<close> exchanged the statement is false. Baseline 0.1,
  radius 0.02, the left wheel turns once (counts 0 and then 135), the right wheel does not
  move: the ratio is \<open>2\<pi> / 5\<close> and so is the heading, while \<open>2\<pi>\<close> modulo the ratio
  is 0.
\<close>

theorem heading_swapped_counterexample:
  "let self = exec [Tick (tick_msg 0 0) ''left'', Tick (tick_msg 2 135) ''left'']
                (init ''duckie'' (1 / 10) (1 / 50))
   in encoder_received self \<and>
      theta self = 2 * pi / 5 \<and>
      np_mod (2 * pi) ((wheel_distance_left self - wheel_distance_right self) / baseline self) = 0 \<and>
      theta self \<noteq>
        np_mod (2 * pi) ((wheel_distance_left self - wheel_distance_right self) / baseline self)"
proof -
  let ?s = "exec [Tick (tick_msg 0 0) ''left'', Tick (tick_msg 2 135) ''left'']
                (init ''duckie'' (1 / 10) (1 / 50))"
  have ratio: "(pi / 25 - 0) / (1 / 10) = 2 * pi / 5" by simp
  have 1: "encoder_received ?s" by (rule example_run(1))
  have 2: "theta ?s = 2 * pi / 5" by (simp only: example_run(5) np_mod_example(1))
  have 3: "np_mod (2 * pi) ((wheel_distance_left ?s - wheel_distance_right ?s) / baseline ?s) = 0"
    by (simp only: example_run(2,3,4) ratio np_mod_example(2))
  have 4: "theta ?s \<noteq>
      np_mod (2 * pi) ((wheel_distance_left ?s - wheel_distance_right ?s) / baseline ?s)"
    unfolding 2 3 by simp
  from 1 2 3 4 show ?thesis unfolding Let_def by (intro conjI)
qed

subsection \<open>The stamp of the stored message\<close>

text \<open>
  Claim C8. After a callback that returns normally, the stored message is a fresh
  \<open>TransformStamped\<close> whose stamp is the stamp of the encoder message just processed
  (nothing else of the environment enters it: the node never reads a clock), and that is
  the message the next cycle of the publish loop hands to the publisher and to the
  broadcaster.
\<close>

theorem stamp_from_tick:
  assumes "fst (cb_encoder_to_transform msg wheel self) = Inr ()"
  shows "let self' = snd (cb_encoder_to_transform msg wheel self);
             m = TransformStamped_new
                   \<lparr>header := \<lparr>seq = 0, stamp = stamp (header msg), frame_id = ''map''\<rparr>,
                    child_frame_id := ''encoder_baselink''\<rparr>
         in transform_msg self' = Some m \<and>
            stamp (header m) = stamp (header msg) \<and>
            pub_transform (snd (run_cycle self')) = pub_transform self @ [m] \<and>
            broadcaster (snd (run_cycle self')) = broadcaster self @ [m]"
  using cb_success [OF assms]
  by (simp add: Let_def run_cycle_def)

theorem stamp_from_tick_witness:
  "fst (cb_encoder_to_transform (tick_msg 17 3) ''right'' (init ''duckie'' (1 / 10) (1 / 50))) =
     Inr () \<and>
   (let self' = snd (cb_encoder_to_transform (tick_msg 17 3) ''right''
                       (init ''duckie'' (1 / 10) (1 / 50)));
        m = TransformStamped_new
              \<lparr>header := \<lparr>seq = 0, stamp = \<lparr>secs = 17, nsecs = 0\<rparr>, frame_id = ''map''\<rparr>,
               child_frame_id := ''encoder_baselink''\<rparr>
    in transform_msg self' = Some m \<and>
       stamp (header m) = \<lparr>secs = 17, nsecs = 0\<rparr> \<and>
       pub_transform (snd (run_cycle self')) = [m] \<and>
       broadcaster (snd (run_cycle self')) = [m])"
proof -
  have ok: "fst (cb_encoder_to_transform (tick_msg 17 3) ''right''
                  (init ''duckie'' (1 / 10) (1 / 50))) = Inr ()"
    by (simp add: cb_success_iff init_fields)
  have st: "stamp (header (tick_msg 17 3)) = \<lparr>secs = 17, nsecs = 0\<rparr>"
    by (simp add: tick_msg_def)
  have e: "pub_transform (init ''duckie'' (1 / 10) (1 / 50)) = []"
    "broadcaster (init ''duckie'' (1 / 10) (1 / 50)) = []"
    by (simp_all add: init_def)
  from ok stamp_from_tick [OF ok, unfolded st e append_Nil] show ?thesis by (rule conjI)
qed

subsection \<open>The other wheel\<close>

text \<open>
  Claim C9. A callback for the left wheel leaves the four fields of the right wheel
  (flag, last count, first count, distance) as they were, and a callback for the right
  wheel leaves those of the left wheel as they were, whatever the state and the count
  are and whether or not the callback raises later on.
\<close>

theorem tick_leaves_other_wheel:
  "(let self' = snd (cb_encoder_to_transform msg ''left'' self) in
      initialised_ticks_right self' = initialised_ticks_right self \<and>
      total_ticks_right self' = total_ticks_right self \<and>
      initial_ticks_right self' = initial_ticks_right self \<and>
      wheel_distance_right self' = wheel_distance_right self) \<and>
   (let self' = snd (cb_encoder_to_transform msg ''right'' self) in
      initialised_ticks_left self' = initialised_ticks_left self \<and>
      total_ticks_left self' = total_ticks_left self \<and>
      initial_ticks_left self' = initial_ticks_left self \<and>
      wheel_distance_left self' = wheel_distance_left self)"
  by (simp add: Let_def cb_left_frame cb_right_frame)

subsection \<open>Nothing is assigned before the \<open>NameError\<close>\<close>

text \<open>
  Claim C10. A callback whose wheel name is neither \<open>left\<close> nor \<open>right\<close> ends in an
  exception and leaves the whole instance as it was: the fields of both wheels, the
  heading, the stored message and the flag.
\<close>

theorem unknown_wheel_no_mutation:
  assumes "wheel \<noteq> ''left''" and "wheel \<noteq> ''right''"
  shows "isl (fst (cb_encoder_to_transform msg wheel self)) \<and>
         snd (cb_encoder_to_transform msg wheel self) = self"
  using assms by (simp add: cb_unknown)

theorem unknown_wheel_no_mutation_witness:
  "''Left'' \<noteq> ''left'' \<and> ''Left'' \<noteq> ''right'' \<and>
   isl (fst (cb_encoder_to_transform (tick_msg 3 42) ''Left''
          (exec [Tick (tick_msg 0 0) ''left'', Cycle] (init ''duckie'' (1 / 10) (1 / 50))))) \<and>
   snd (cb_encoder_to_transform (tick_msg 3 42) ''Left''
          (exec [Tick (tick_msg 0 0) ''left'', Cycle] (init ''duckie'' (1 / 10) (1 / 50)))) =
     exec [Tick (tick_msg 0 0) ''left'', Cycle] (init ''duckie'' (1 / 10) (1 / 50))"
proof -
  have l: "''Left'' \<noteq> ''left''" and r: "''Left'' \<noteq> ''right''" by simp_all
  from l r unknown_wheel_no_mutation [OF l r] show ?thesis by blast
qed

end
